theory Spec2Isabelle
  imports Main "HOL-Library.Word"
begin

section \<open>The MCP bridge (mcp-bridge/bridge.py): data\<close>

text \<open>
  A Python \<open>str\<close> is a sequence of Unicode code points and a \<open>bytes\<close> object a sequence
  of octets. String literals of the source are written \<open>lit ''...''\<close>.
\<close>

type_synonym str = "nat list"
type_synonym byte = "8 word"

definition lit :: "string \<Rightarrow> str" where
  "lit s = map of_char s"

text \<open>
  A Python \<open>float\<close> as far as the bridge looks at it: a finite value (mantissa and binary
  exponent), or one of the three values \<open>NaN\<close>, \<open>Infinity\<close>, \<open>-Infinity\<close>, which
  \<open>json.loads\<close> accepts and \<open>json.dumps(allow_nan=False)\<close> refuses.
\<close>

datatype pyfloat = Finite int int | NaN | Infinity | NegInfinity

text \<open>
  JSON values as \<open>json.loads\<close> builds them (\<open>dict\<close>, \<open>list\<close>, \<open>str\<close>, \<open>int\<close>, \<open>float\<close>,
  \<open>bool\<close>, \<open>None\<close>). A \<open>dict\<close> is an association list whose keys are distinct.
\<close>

datatype json =
    JNull
  | JBool bool
  | JInt int
  | JFloat pyfloat
  | JStr str
  | JArr "json list"
  | JObj "(str \<times> json) list"

text \<open>
  What \<open>JSONResponse\<close> can render. Starlette renders the content when the response is
  built, with \<open>json.dumps(content, ensure_ascii=False, allow_nan=False, ...).encode("utf-8")\<close>:
  \<open>json.dumps\<close> raises \<open>ValueError\<close> on \<open>NaN\<close> and the infinities, and on an \<open>int\<close> of
  more than 4300 decimal digits (the default limit of the interpreter on the conversion
  between \<open>int\<close> and \<open>str\<close>, which \<open>json.loads\<close> obeys as well); \<open>encode\<close> raises
  \<open>UnicodeEncodeError\<close> on a string (a key included) with a lone surrogate. A code point
  is encoded when it is a Unicode scalar value.
\<close>

definition max_str_digits :: nat where
  "max_str_digits = 4300"

definition scalar_value :: "nat \<Rightarrow> bool" where
  "scalar_value c \<longleftrightarrow> c < 0xD800 \<or> (0xDFFF < c \<and> c \<le> 0x10FFFF)"

definition encodes :: "str \<Rightarrow> bool" where
  "encodes t = list_all scalar_value t"

fun renderable :: "json \<Rightarrow> bool" where
  "renderable JNull = True"
| "renderable (JBool b) = True"
| "renderable (JInt i) = (\<bar>i\<bar> < 10 ^ max_str_digits)"
| "renderable (JFloat f) = (case f of Finite m e \<Rightarrow> True | _ \<Rightarrow> False)"
| "renderable (JStr t) = encodes t"
| "renderable (JArr xs) = (\<forall>x\<in>set xs. renderable x)"
| "renderable (JObj kvs) = (\<forall>kv\<in>set kvs. encodes (fst kv) \<and> renderable (snd kv))"

declare renderable.simps(3) [simp del]

text \<open>
  The exceptions the handlers tell apart, each with its \<open>str(e)\<close>:
  \<open>httpx.HTTPStatusError\<close>, \<open>json.JSONDecodeError\<close>, \<open>AttributeError\<close>, and any other
  subclass of \<open>Exception\<close> (transport errors and time-outs of httpx among them).
\<close>

datatype exn =
    HTTPStatusError str
  | JSONDecodeError str
  | AttributeError str
  | OtherException str

fun str_exn :: "exn \<Rightarrow> str" where
  "str_exn (HTTPStatusError m) = m"
| "str_exn (JSONDecodeError m) = m"
| "str_exn (AttributeError m) = m"
| "str_exn (OtherException m) = m"

text \<open>
  An outbound call made on the shared \<open>httpx.AsyncClient\<close>: the \<open>json=\<close> argument
  (\<open>JNull\<close>, Python's \<open>None\<close>, when the call has no body) and the \<open>headers=\<close> argument in
  insertion order.
\<close>

record outbound =
  verb :: string
  path :: string
  payload :: json
  headers :: "(string \<times> str) list"

text \<open>
  What a call on the client gives back: no response at all (the call raises before a
  response arrives: a transport error, a time-out, or httpx failing to encode the
  request; with the exception's message), or a status line and headers followed by the
  body as the chunks \<open>aiter_bytes\<close> yields; \<open>body_error\<close> is the transport error that ends
  the body early, if any. The response is the one httpx hands over, after any redirect
  it follows. Header names are in lower case, as \<open>httpx.Headers.get\<close> compares them, and
  a name may be repeated.
\<close>

record http_response =
  status_code :: nat
  resp_headers :: "(string \<times> str) list"
  body_chunks :: "byte list list"
  body_error :: "str option"

datatype upstream_reply = NoReply str | Reply http_response

text \<open>
  What the bridge does not define itself: \<open>json.loads\<close> (a value or an exception), the
  upstream server (its reply to a call, given the calls made before it), the text of
  the \<open>HTTPStatusError\<close> that \<open>raise_for_status\<close> builds for a status code, the text of
  the exception that \<open>JSONResponse\<close> raises for a content it cannot render, and the
  configured \<open>FASTMCP_SERVER_URL\<close>.
\<close>

record env =
  loads :: "str \<Rightarrow> exn + json"
  upstream :: "outbound list \<Rightarrow> outbound \<Rightarrow> upstream_reply"
  http_error_text :: "nat \<Rightarrow> str"
  render_error_text :: "json \<Rightarrow> str"
  server_url :: str

text \<open>
  The module's globals \<open>http_client\<close> (created or not) and \<open>session_id\<close>, and the calls
  made on the client so far, oldest first.
\<close>

record bridge =
  http_client :: bool
  session_id :: "str option"
  sent :: "outbound list"

definition initial_bridge :: bridge where
  "initial_bridge = \<lparr>http_client = False, session_id = None, sent = []\<rparr>"

text \<open>
  What a route handler leaves to Starlette: a \<open>JSONResponse\<close> (status code and content),
  or an exception that leaves the handler.
\<close>

datatype outcome = Responded nat json | Escaped exn

text \<open>
  \<open>JSONResponse(content, status_code=code)\<close>: the response, or the exception of the
  rendering (\<open>ValueError\<close>, \<open>UnicodeEncodeError\<close>).
\<close>

definition json_response :: "env \<Rightarrow> nat \<Rightarrow> json \<Rightarrow> exn + nat \<times> json" where
  "json_response env code content =
     (if renderable content then Inr (code, content)
      else Inl (OtherException (render_error_text env content)))"

section \<open>Strings and bytes\<close>

text \<open>\<open>str.isspace\<close> on one code point: the Unicode white space characters.\<close>

definition is_space :: "nat \<Rightarrow> bool" where
  "is_space c \<longleftrightarrow>
     (9 \<le> c \<and> c \<le> 13) \<or> (28 \<le> c \<and> c \<le> 32) \<or> c = 133 \<or> c = 160 \<or> c = 5760 \<or>
     (8192 \<le> c \<and> c \<le> 8202) \<or> c = 8232 \<or> c = 8233 \<or> c = 8239 \<or> c = 8287 \<or> c = 12288"

definition strip :: "str \<Rightarrow> str" where
  "strip t = rev (dropWhile is_space (rev (dropWhile is_space t)))"

definition startswith :: "str \<Rightarrow> str \<Rightarrow> bool" where
  "startswith t p \<longleftrightarrow> take (length p) t = p"

definition newline :: nat where
  "newline = 10"

text \<open>\<open>buffer.split('\n', 1)\<close> for a buffer that holds a newline.\<close>

definition split_line :: "str \<Rightarrow> str \<times> str" where
  "split_line buffer =
     (takeWhile (\<lambda>c. c \<noteq> newline) buffer, tl (dropWhile (\<lambda>c. c \<noteq> newline) buffer))"

definition is_cont :: "byte \<Rightarrow> bool" where
  "is_cont b \<longleftrightarrow> 0x80 \<le> b \<and> b < 0xC0"

text \<open>
  \<open>chunk.decode('utf-8', errors='ignore')\<close>, as CPython decodes: an invalid start byte is
  dropped alone, an invalid continuation drops the bytes of the sequence read before it,
  and a sequence cut off by the end of the input is dropped whole.
\<close>

fun decode_utf8_ignore :: "byte list \<Rightarrow> str" where
  "decode_utf8_ignore [] = []"
| "decode_utf8_ignore (b # bs) =
     (if b < 0x80 then unat b # decode_utf8_ignore bs
      else if b < 0xC2 then decode_utf8_ignore bs
      else if b < 0xE0 then
        (case bs of
           [] \<Rightarrow> []
         | b2 # r2 \<Rightarrow>
             if is_cont b2
             then ((unat b - 0xC0) * 64 + (unat b2 - 0x80)) # decode_utf8_ignore r2
             else decode_utf8_ignore bs)
      else if b < 0xF0 then
        (case bs of
           [] \<Rightarrow> []
         | b2 # r2 \<Rightarrow>
             if \<not> is_cont b2 \<or> (b = 0xE0 \<and> b2 < 0xA0) \<or> (b = 0xED \<and> 0xA0 \<le> b2)
             then decode_utf8_ignore bs
             else
               (case r2 of
                  [] \<Rightarrow> []
                | b3 # r3 \<Rightarrow>
                    if is_cont b3
                    then ((unat b - 0xE0) * 4096 + (unat b2 - 0x80) * 64 + (unat b3 - 0x80))
                           # decode_utf8_ignore r3
                    else decode_utf8_ignore r2))
      else if b < 0xF5 then
        (case bs of
           [] \<Rightarrow> []
         | b2 # r2 \<Rightarrow>
             if \<not> is_cont b2 \<or> (b = 0xF0 \<and> b2 < 0x90) \<or> (b = 0xF4 \<and> 0x90 \<le> b2)
             then decode_utf8_ignore bs
             else
               (case r2 of
                  [] \<Rightarrow> []
                | b3 # r3 \<Rightarrow>
                    if \<not> is_cont b3 then decode_utf8_ignore r2
                    else
                      (case r3 of
                         [] \<Rightarrow> []
                       | b4 # r4 \<Rightarrow>
                           if is_cont b4
                           then ((unat b - 0xF0) * 262144 + (unat b2 - 0x80) * 4096
                                  + (unat b3 - 0x80) * 64 + (unat b4 - 0x80))
                                  # decode_utf8_ignore r4
                           else decode_utf8_ignore r3)))
      else decode_utf8_ignore bs)"

section \<open>The SSE decode loop of \<open>handle_jsonrpc\<close>\<close>

definition dict_has :: "json \<Rightarrow> str \<Rightarrow> bool" where
  "dict_has v k = (case v of JObj kvs \<Rightarrow> map_of kvs k \<noteq> None | _ \<Rightarrow> False)"

text \<open>
  The body of the \<open>while\<close> loop for one line: the line is passed over (\<open>Skip\<close>), the
  handler returns the parsed object (\<open>Found\<close>), or \<open>json.loads\<close> raises something that
  \<open>except json.JSONDecodeError\<close> does not catch (\<open>Raised\<close>).
\<close>

datatype line_result = Skip | Found json | Raised exn

definition process_line :: "env \<Rightarrow> str \<Rightarrow> line_result" where
  "process_line env raw =
     (let line = strip raw in
      if startswith line (lit ''data: '') then
        (let json_str = drop 6 line in
         if json_str \<noteq> [] \<and> json_str \<noteq> lit ''[DONE]'' then
           (case loads env json_str of
              Inr result \<Rightarrow> if dict_has result (lit ''jsonrpc'') then Found result else Skip
            | Inl (JSONDecodeError m) \<Rightarrow> Skip
            | Inl e \<Rightarrow> Raised e)
         else Skip)
      else Skip)"

text \<open>
  \<open>while '\n' in buffer\<close>: lines are taken off the buffer until one ends the handler or
  no newline is left; \<open>More\<close> carries the text kept for the next chunk.
\<close>

datatype scan = More str | Done json | Failed exn

function process_buffer :: "env \<Rightarrow> str \<Rightarrow> scan" where
  "process_buffer env buffer =
     (if newline \<in> set buffer then
        (case process_line env (fst (split_line buffer)) of
           Skip \<Rightarrow> process_buffer env (snd (split_line buffer))
         | Found v \<Rightarrow> Done v
         | Raised e \<Rightarrow> Failed e)
      else More buffer)"
  by pat_completeness auto

termination process_buffer
proof (relation "measure (\<lambda>(env, buffer). length buffer)")
  show "wf (measure (\<lambda>(env :: env, buffer :: str). length buffer))"
    by simp
next
  fix env :: env and buffer :: str
  assume "newline \<in> set buffer"
  then have "0 < length buffer"
    by (cases buffer) simp_all
  with length_dropWhile_le [of "\<lambda>c. c \<noteq> newline" buffer]
  have "length (dropWhile (\<lambda>c. c \<noteq> newline) buffer) - 1 < length buffer"
    by arith
  then show "((env, snd (split_line buffer)), (env, buffer))
          \<in> measure (\<lambda>(env, buffer). length buffer)"
    by (simp add: split_line_def)
qed

declare process_buffer.simps [simp del]

text \<open>
  \<open>async for chunk in response.aiter_bytes()\<close>, from the buffer so far: the loop returns
  an object, runs out of chunks (the stream is closed, or broken by a transport error),
  or is left by an exception.
\<close>

datatype stream_result = Decoded json | Exhausted | Broken exn

fun read_stream :: "env \<Rightarrow> str \<Rightarrow> byte list list \<Rightarrow> str option \<Rightarrow> stream_result" where
  "read_stream env buffer [] None = Exhausted"
| "read_stream env buffer [] (Some msg) = Broken (OtherException msg)"
| "read_stream env buffer (chunk # chunks) fin =
     (case process_buffer env (buffer @ decode_utf8_ignore chunk) of
        More buffer' \<Rightarrow> read_stream env buffer' chunks fin
      | Done v \<Rightarrow> Decoded v
      | Failed e \<Rightarrow> Broken e)"

section \<open>Session handshake: \<open>get_http_client\<close> and \<open>get_or_create_session\<close>\<close>

definition get_http_client :: "bridge \<Rightarrow> bridge" where
  "get_http_client s = (if http_client s then s else s\<lparr>http_client := True\<rparr>)"

definition base_headers :: "(string \<times> str) list" where
  "base_headers =
     [(''Accept'', lit ''application/json, text/event-stream''),
      (''Content-Type'', lit ''application/json'')]"

definition init_request :: json where
  "init_request =
     JObj [(lit ''jsonrpc'', JStr (lit ''2.0'')),
           (lit ''id'', JInt 0),
           (lit ''method'', JStr (lit ''initialize'')),
           (lit ''params'',
              JObj [(lit ''protocolVersion'', JStr (lit ''2024-11-05'')),
                    (lit ''capabilities'', JObj []),
                    (lit ''clientInfo'',
                       JObj [(lit ''name'', JStr (lit ''mcp-bridge'')),
                             (lit ''version'', JStr (lit ''1.0.0''))])])]"

definition init_call :: outbound where
  "init_call = \<lparr>verb = ''POST'', path = ''/mcp'', payload = init_request, headers = base_headers\<rparr>"

text \<open>
  \<open>response.headers.get(name)\<close>: \<open>None\<close> when the header is missing, else its values
  joined by a comma and a space.
\<close>

definition header_get :: "(string \<times> str) list \<Rightarrow> string \<Rightarrow> str option" where
  "header_get hs name =
     (case map snd (filter (\<lambda>kv. fst kv = name) hs) of
        [] \<Rightarrow> None
      | v # vs \<Rightarrow> Some (foldl (\<lambda>joined w. joined @ lit '', '' @ w) v vs))"

text \<open>\<open>response.raise_for_status()\<close>: any status outside 200..299 raises.\<close>

definition raise_for_status :: "env \<Rightarrow> http_response \<Rightarrow> exn + unit" where
  "raise_for_status env r =
     (if 200 \<le> status_code r \<and> status_code r \<le> 299 then Inr ()
      else Inl (HTTPStatusError (http_error_text env (status_code r))))"

text \<open>
  The rest of the critical section once \<open>client.post\<close> is over: \<open>post\<close> reads the
  whole body, so a transport error before or inside the body raises;
  \<open>raise_for_status\<close> follows; then the token is the \<open>mcp-session-id\<close> header, or
  \<open>default-session\<close> when the header is missing or empty. (The \<open>initialize\<close> request is
  a literal of the source.)
\<close>

definition handshake_reply :: "env \<Rightarrow> upstream_reply \<Rightarrow> bridge \<Rightarrow> (exn + str) \<times> bridge" where
  "handshake_reply env reply s =
     (case reply of
        NoReply msg \<Rightarrow> (Inl (OtherException msg), s)
      | Reply r \<Rightarrow>
          (case body_error r of
             Some msg \<Rightarrow> (Inl (OtherException msg), s)
           | None \<Rightarrow>
               (case raise_for_status env r of
                  Inl e \<Rightarrow> (Inl e, s)
                | Inr u \<Rightarrow>
                    (let token =
                           (case header_get (resp_headers r) ''mcp-session-id'' of
                              Some h \<Rightarrow> if h \<noteq> [] then h else lit ''default-session''
                            | None \<Rightarrow> lit ''default-session'')
                     in (Inr token, s\<lparr>session_id := Some token\<rparr>)))))"

text \<open>
  \<open>get_or_create_session\<close> run by one caller without interruption (the body of
  \<open>async with session_lock\<close>).
\<close>

definition get_or_create_session :: "env \<Rightarrow> bridge \<Rightarrow> (exn + str) \<times> bridge" where
  "get_or_create_session env s =
     (case session_id s of
        Some token \<Rightarrow> (Inr token, s)
      | None \<Rightarrow>
          (let s1 = get_http_client s
           in handshake_reply env (upstream env (sent s1) init_call)
                (s1\<lparr>sent := sent s1 @ [init_call]\<rparr>)))"

section \<open>The gateway: \<open>handle_jsonrpc\<close>\<close>

definition type_name :: "json \<Rightarrow> string" where
  "type_name v =
     (case v of JNull \<Rightarrow> ''NoneType'' | JBool b \<Rightarrow> ''bool'' | JInt i \<Rightarrow> ''int''
      | JFloat f \<Rightarrow> ''float'' | JStr t \<Rightarrow> ''str'' | JArr xs \<Rightarrow> ''list''
      | JObj kvs \<Rightarrow> ''dict'')"

text \<open>\<open>body.get(k)\<close>: only a \<open>dict\<close> has the method.\<close>

definition dict_get :: "json \<Rightarrow> str \<Rightarrow> exn + json" where
  "dict_get v k =
     (case v of
        JObj kvs \<Rightarrow> Inr (case map_of kvs k of Some x \<Rightarrow> x | None \<Rightarrow> JNull)
      | _ \<Rightarrow> Inl (AttributeError (lit ([CHR 0x27] @ type_name v @ [CHR 0x27]
                                        @ '' object has no attribute '' @ [CHR 0x27] @ ''get'' @ [CHR 0x27]))))"

definition result_envelope :: "json \<Rightarrow> json" where
  "result_envelope request_id =
     JObj [(lit ''jsonrpc'', JStr (lit ''2.0'')), (lit ''id'', request_id), (lit ''result'', JObj [])]"

definition error_envelope :: "json \<Rightarrow> str \<Rightarrow> json" where
  "error_envelope request_id message =
     JObj [(lit ''jsonrpc'', JStr (lit ''2.0'')),
           (lit ''id'', request_id),
           (lit ''error'', JObj [(lit ''code'', JInt (- 32603)), (lit ''message'', JStr message)])]"

definition no_response_text :: str where
  "no_response_text = lit ''No valid JSON-RPC response found in SSE stream''"

text \<open>The headers of the forwarded call: \<open>if session_id:\<close> adds the token.\<close>

definition forward_headers :: "bridge \<Rightarrow> (string \<times> str) list" where
  "forward_headers s =
     (case session_id s of
        Some token \<Rightarrow>
          if token \<noteq> [] then base_headers @ [(''mcp-session-id'', token)] else base_headers
      | None \<Rightarrow> base_headers)"

definition forward_call :: "json \<Rightarrow> bridge \<Rightarrow> outbound" where
  "forward_call body s =
     \<lparr>verb = ''POST'', path = ''/mcp'', payload = body, headers = forward_headers s\<rparr>"

text \<open>
  From \<open>client = await get_http_client()\<close> to the end of the \<open>try\<close> block: the streamed
  POST, \<open>raise_for_status\<close>, the 202 branch, the decode loop and the response after it.
  Each \<open>JSONResponse\<close> is built inside the \<open>try\<close>, so an exception of its rendering goes
  to the \<open>except\<close> clauses. A call that raises before a response arrives (a transport
  error, or httpx failing to encode \<open>body\<close>) is the upstream's \<open>NoReply\<close>.
\<close>

definition forward :: "env \<Rightarrow> json \<Rightarrow> json \<Rightarrow> bridge \<Rightarrow> (exn + nat \<times> json) \<times> bridge" where
  "forward env body request_id s =
     (let s1 = get_http_client s;
          call = forward_call body s1;
          s2 = s1\<lparr>sent := sent s1 @ [call]\<rparr>
      in case upstream env (sent s1) call of
           NoReply msg \<Rightarrow> (Inl (OtherException msg), s2)
         | Reply r \<Rightarrow>
             (case raise_for_status env r of
                Inl e \<Rightarrow> (Inl e, s2)
              | Inr u \<Rightarrow>
                  if status_code r = 202
                  then (json_response env 200 (result_envelope request_id), s2)
                  else
                    (case read_stream env [] (body_chunks r) (body_error r) of
                       Decoded v \<Rightarrow> (json_response env 200 v, s2)
                     | Exhausted \<Rightarrow>
                         (json_response env 500 (error_envelope request_id no_response_text), s2)
                     | Broken e \<Rightarrow> (Inl e, s2))))"

text \<open>\<open>if method != "initialize": await get_or_create_session()\<close>.\<close>

definition ensure_session :: "env \<Rightarrow> json \<Rightarrow> bridge \<Rightarrow> exn option \<times> bridge" where
  "ensure_session env method s =
     (if method \<noteq> JStr (lit ''initialize'') then
        (case get_or_create_session env s of
           (Inl e, s1) \<Rightarrow> (Some e, s1)
         | (Inr token, s1) \<Rightarrow> (None, s1))
      else (None, s))"

text \<open>The \<open>try\<close> block after \<open>body = await request.json()\<close>.\<close>

definition try_block :: "env \<Rightarrow> json \<Rightarrow> bridge \<Rightarrow> (exn + nat \<times> json) \<times> bridge" where
  "try_block env body s =
     (case dict_get body (lit ''method'') of
        Inl e \<Rightarrow> (Inl e, s)
      | Inr method \<Rightarrow>
          (case dict_get body (lit ''id'') of
             Inl e \<Rightarrow> (Inl e, s)
           | Inr request_id \<Rightarrow>
               (case ensure_session env method s of
                  (Some e, s1) \<Rightarrow> (Inl e, s1)
                | (None, s1) \<Rightarrow> forward env body request_id s1)))"

text \<open>
  The two \<open>except\<close> clauses. Both evaluate \<open>body.get("id") if 'body' in locals() else None\<close>
  and build the \<open>JSONResponse\<close> outside any \<open>try\<close>: an exception of either leaves the
  handler.
\<close>

definition except_clause :: "env \<Rightarrow> json option \<Rightarrow> exn \<Rightarrow> outcome" where
  "except_clause env body e =
     (case (case body of None \<Rightarrow> Inr JNull | Some b \<Rightarrow> dict_get b (lit ''id'')) of
        Inl e' \<Rightarrow> Escaped e'
      | Inr request_id \<Rightarrow>
          (case json_response env 500
                  (error_envelope request_id
                     ((case e of
                         HTTPStatusError m \<Rightarrow> lit ''FastMCP server error: ''
                       | _ \<Rightarrow> lit ''Internal error: '') @ str_exn e)) of
             Inl e' \<Rightarrow> Escaped e'
           | Inr (code, content) \<Rightarrow> Responded code content))"

text \<open>
  \<open>handle_jsonrpc\<close>; the request is what \<open>await request.json()\<close> gives: the parsed body,
  or the exception it raises.
\<close>

definition handle_jsonrpc :: "env \<Rightarrow> exn + json \<Rightarrow> bridge \<Rightarrow> outcome \<times> bridge" where
  "handle_jsonrpc env request s =
     (case request of
        Inl e \<Rightarrow> (except_clause env None e, s)
      | Inr body \<Rightarrow>
          (case try_block env body s of
             (Inr (code, content), s') \<Rightarrow> (Responded code content, s')
           | (Inl e, s') \<Rightarrow> (except_clause env (Some body) e, s')))"

section \<open>The liveness probe: \<open>health_check\<close>\<close>

text \<open>
  \<open>client.get("/")\<close>: a GET with no body and no headers of its own, read to the end;
  \<open>raise_for_status\<close>; any exception gives the \<open>unhealthy\<close> response with status 503,
  built in the \<open>except\<close> clause.
\<close>

definition health_call :: outbound where
  "health_call = \<lparr>verb = ''GET'', path = ''/'', payload = JNull, headers = []\<rparr>"

definition unhealthy :: "env \<Rightarrow> exn \<Rightarrow> outcome" where
  "unhealthy env e =
     (case json_response env 503
             (JObj [(lit ''status'', JStr (lit ''unhealthy'')), (lit ''error'', JStr (str_exn e))]) of
        Inl e' \<Rightarrow> Escaped e'
      | Inr (code, content) \<Rightarrow> Responded code content)"

definition health_check :: "env \<Rightarrow> bridge \<Rightarrow> outcome \<times> bridge" where
  "health_check env s =
     (let s1 = get_http_client s;
          s2 = s1\<lparr>sent := sent s1 @ [health_call]\<rparr>
      in case upstream env (sent s1) health_call of
           NoReply msg \<Rightarrow> (unhealthy env (OtherException msg), s2)
         | Reply r \<Rightarrow>
             (case body_error r of
                Some msg \<Rightarrow> (unhealthy env (OtherException msg), s2)
              | None \<Rightarrow>
                  (case raise_for_status env r of
                     Inl e \<Rightarrow> (unhealthy env e, s2)
                   | Inr u \<Rightarrow>
                       (case json_response env 200
                               (JObj [(lit ''status'', JStr (lit ''healthy'')),
                                      (lit ''fastmcp_server'', JStr (server_url env)),
                                      (lit ''bridge'', JStr (lit ''running''))]) of
                          Inl e \<Rightarrow> (unhealthy env e, s2)
                        | Inr (code, content) \<Rightarrow> (Responded code content, s2)))))"

section \<open>Concurrent callers of \<open>get_or_create_session\<close>\<close>

text \<open>
  Callers of \<open>get_or_create_session\<close> as tasks of one asyncio event loop. A task runs
  until it suspends: at \<open>async with session_lock\<close> while another task holds the lock,
  and at \<open>await client.post(...)\<close>, where it holds the lock and waits for the reply.
  A caller is \<open>Waiting\<close> before it has the lock, \<open>Holding\<close> while it waits for the reply
  to its \<open>initialize\<close> call, and then has \<open>Returned\<close> a token or is \<open>Raising\<close>.
\<close>

datatype caller = Waiting | Holding upstream_reply | Returned str | Raising exn

record loop_state =
  globals :: bridge
  locked :: bool
  callers :: "caller list"


text \<open>
  The event loop resumes caller \<open>i\<close>. A waiting caller takes the free lock and either
  returns the stored token and releases the lock, or sends the \<open>initialize\<close> call and
  suspends with the lock held; a holding caller gets its reply, finishes the critical
  section and releases the lock (\<open>async with\<close> releases it on an exception too). A
  caller that is blocked on the lock, or is done, does nothing.
\<close>

definition resume :: "env \<Rightarrow> nat \<Rightarrow> loop_state \<Rightarrow> loop_state" where
  "resume env i c =
     (if i < length (callers c) then
        (case callers c ! i of
           Waiting \<Rightarrow>
             if locked c then c
             else
               (case session_id (globals c) of
                  Some token \<Rightarrow> c\<lparr>callers := (callers c)[i := Returned token]\<rparr>
                | None \<Rightarrow>
                    (let s1 = get_http_client (globals c)
                     in c\<lparr>globals := s1\<lparr>sent := sent s1 @ [init_call]\<rparr>,
                          locked := True,
                          callers := (callers c)[i := Holding (upstream env (sent s1) init_call)]\<rparr>))
         | Holding reply \<Rightarrow>
             (case handshake_reply env reply (globals c) of
                (Inl e, s') \<Rightarrow>
                  c\<lparr>globals := s', locked := False, callers := (callers c)[i := Raising e]\<rparr>
              | (Inr token, s') \<Rightarrow>
                  c\<lparr>globals := s', locked := False, callers := (callers c)[i := Returned token]\<rparr>)
         | Returned token \<Rightarrow> c
         | Raising e \<Rightarrow> c)
      else c)"

text \<open>A schedule is the order in which the event loop resumes the callers.\<close>

fun run :: "env \<Rightarrow> nat list \<Rightarrow> loop_state \<Rightarrow> loop_state" where
  "run env [] c = c"
| "run env (i # schedule) c = run env schedule (resume env i c)"


text \<open>The handshake succeeds: a complete reply with a status in 200..299.\<close>

definition handshake_ok :: "upstream_reply \<Rightarrow> bool" where
  "handshake_ok reply =
     (case reply of
        NoReply msg \<Rightarrow> False
      | Reply r \<Rightarrow> body_error r = None \<and> 200 \<le> status_code r \<and> status_code r \<le> 299)"

section \<open>The decode loop in the words of the specification\<close>

text \<open>The text the loop accumulates: every chunk decoded on its own.\<close>

definition stream_text :: "byte list list \<Rightarrow> str" where
  "stream_text chunks = concat (map decode_utf8_ignore chunks)"

text \<open>The newline-terminated lines of a text, and the text after its last newline.\<close>

function complete_lines :: "str \<Rightarrow> str list" where
  "complete_lines t =
     (if newline \<in> set t then fst (split_line t) # complete_lines (snd (split_line t)) else [])"
  by pat_completeness auto
termination
proof (relation "measure length")
  show "wf (measure (length :: str \<Rightarrow> nat))"
    by simp
next
  fix t :: str
  assume "newline \<in> set t"
  then have "0 < length t"
    by (cases t) simp_all
  with length_dropWhile_le [of "\<lambda>c. c \<noteq> newline" t]
  have "length (dropWhile (\<lambda>c. c \<noteq> newline) t) - 1 < length t"
    by arith
  then show "(snd (split_line t), t) \<in> measure length"
    by (simp add: split_line_def)
qed

declare complete_lines.simps [simp del]

definition residual :: "str \<Rightarrow> str" where
  "residual t = rev (takeWhile (\<lambda>c. c \<noteq> newline) (rev t))"

text \<open>
  The payloads of the data lines: each line stripped, the lines with the \<open>data: \<close>
  prefix kept, the prefix removed, empty payloads and the \<open>[DONE]\<close> sentinel dropped.
\<close>

definition data_payloads :: "str \<Rightarrow> str list" where
  "data_payloads t =
     filter (\<lambda>p. p \<noteq> [] \<and> p \<noteq> lit ''[DONE]'')
       (map (drop 6) (filter (\<lambda>l. startswith l (lit ''data: '')) (map strip (complete_lines t))))"

text \<open>A payload that parses as a JSON object with the \<open>jsonrpc\<close> key.\<close>

definition yields :: "env \<Rightarrow> str \<Rightarrow> json \<Rightarrow> bool" where
  "yields env p v \<longleftrightarrow> loads env p = Inr v \<and> dict_has v (lit ''jsonrpc'')"

text \<open>
  A payload the loop passes over: \<open>json.loads\<close> raises \<open>JSONDecodeError\<close>, or gives a value
  that is not an object with the \<open>jsonrpc\<close> key.
\<close>

definition passed_over :: "env \<Rightarrow> str \<Rightarrow> bool" where
  "passed_over env p =
     (case loads env p of
        Inl (JSONDecodeError m) \<Rightarrow> True
      | Inl e \<Rightarrow> False
      | Inr v \<Rightarrow> \<not> dict_has v (lit ''jsonrpc''))"

section \<open>Example runs\<close>

definition ascii :: "string \<Rightarrow> byte list" where
  "ascii s = map of_char s"

definition tools_list_request :: json where
  "tools_list_request =
     JObj [(lit ''jsonrpc'', JStr (lit ''2.0'')), (lit ''id'', JInt 7),
           (lit ''method'', JStr (lit ''tools/list'')), (lit ''params'', JObj [])]"

definition tools_list_text :: str where
  \<open>tools_list_text = lit ''{"jsonrpc":"2.0","id":7,"result":{"tools":[]}}''\<close>

definition tools_list_response :: json where
  "tools_list_response =
     JObj [(lit ''jsonrpc'', JStr (lit ''2.0'')), (lit ''id'', JInt 7),
           (lit ''result'', JObj [(lit ''tools'', JArr [])])]"

definition initialized_notification :: json where
  "initialized_notification =
     JObj [(lit ''jsonrpc'', JStr (lit ''2.0'')),
           (lit ''method'', JStr (lit ''notifications/initialized''))]"

definition initialize_text :: str where
  \<open>initialize_text = lit ''{"jsonrpc":"2.0","id":1,"result":{}}''\<close>

definition initialize_response :: json where
  "initialize_response =
     JObj [(lit ''jsonrpc'', JStr (lit ''2.0'')), (lit ''id'', JInt 1), (lit ''result'', JObj [])]"

text \<open>A response whose result is the one-letter string U+00E9, and the same without the letter.\<close>

definition accent_text :: str where
  \<open>accent_text = lit ''{"jsonrpc":"2.0","id":7,"result":"'' @ [233] @ lit ''"}''\<close>

definition accent_response :: json where
  "accent_response =
     JObj [(lit ''jsonrpc'', JStr (lit ''2.0'')), (lit ''id'', JInt 7), (lit ''result'', JStr [233])]"

definition no_accent_text :: str where
  \<open>no_accent_text = lit ''{"jsonrpc":"2.0","id":7,"result":""}''\<close>

definition no_accent_response :: json where
  "no_accent_response =
     JObj [(lit ''jsonrpc'', JStr (lit ''2.0'')), (lit ''id'', JInt 7), (lit ''result'', JStr [])]"

text \<open>
  A response whose result is \<open>NaN\<close>, which \<open>json.loads\<close> accepts, and a JSON integer of
  5000 digits, on which \<open>json.loads\<close> raises \<open>ValueError\<close> (the limit of 4300 digits on
  the conversion of a string to an \<open>int\<close>), which is not a \<open>JSONDecodeError\<close>.
\<close>

definition nan_text :: str where
  \<open>nan_text = lit ''{"jsonrpc":"2.0","id":7,"result":NaN}''\<close>

definition nan_response :: json where
  "nan_response =
     JObj [(lit ''jsonrpc'', JStr (lit ''2.0'')), (lit ''id'', JInt 7), (lit ''result'', JFloat NaN)]"

definition long_digits :: str where
  "long_digits = replicate 5000 49"

definition digits_limit_text :: str where
  "digits_limit_text =
     lit (''Exceeds the limit (4300 digits) for integer string conversion: ''
          @ ''value has 5000 digits; use sys.set_int_max_str_digits() to increase the limit'')"

text \<open>
  \<open>json.loads\<close> on the texts of the examples: the responses above, an integer of 5000
  digits, and text that is not JSON.
\<close>

definition example_loads :: "str \<Rightarrow> exn + json" where
  "example_loads p =
     (if p = tools_list_text then Inr tools_list_response
      else if p = initialize_text then Inr initialize_response
      else if p = accent_text then Inr accent_response
      else if p = no_accent_text then Inr no_accent_response
      else if p = nan_text then Inr nan_response
      else if p = long_digits then Inl (OtherException digits_limit_text)
      else Inl (JSONDecodeError (lit ''Expecting value'')))"

definition session_reply :: upstream_reply where
  "session_reply =
     Reply \<lparr>status_code = 200, resp_headers = [(''mcp-session-id'', lit ''abc123'')],
            body_chunks = [], body_error = None\<rparr>"

text \<open>An upstream that gives \<open>first\<close> for the first call it gets and \<open>later\<close> for the others.\<close>

definition example_env :: "upstream_reply \<Rightarrow> upstream_reply \<Rightarrow> env" where
  "example_env first later =
     \<lparr>loads = example_loads,
      upstream = (\<lambda>history call. if history = [] then first else later),
      http_error_text = (\<lambda>code. lit ''status error''),
      render_error_text = (\<lambda>content. lit ''Out of range float values are not JSON compliant''),
      server_url = lit ''https://upstream.example''\<rparr>"

definition with_session :: bridge where
  "with_session = \<lparr>http_client = True, session_id = Some (lit ''abc123''), sent = [init_call]\<rparr>"

definition accepted :: http_response where
  "accepted =
     \<lparr>status_code = 202, resp_headers = [], body_chunks = [ascii ''not read''],
      body_error = Some (lit ''connection reset'')\<rparr>"

definition tools_chunks :: "byte list list" where
  \<open>tools_chunks =
     [ascii '': ping'' @ [10] @ ascii ''data: not json'' @ [10]
        @ ascii ''data: {"jsonrpc":"2.0","id":7,'',
      ascii ''"result":{"tools":[]}}'' @ [13, 10]]\<close>

definition tools_stream :: http_response where
  "tools_stream =
     \<lparr>status_code = 200, resp_headers = [],
      body_chunks = tools_chunks @ [ascii ''data: never read''],
      body_error = Some (lit ''connection reset'')\<rparr>"


definition unterminated_stream :: http_response where
  \<open>unterminated_stream =
     \<lparr>status_code = 200, resp_headers = [],
      body_chunks = [ascii '': ping'' @ [10],
                     ascii ''data: {"jsonrpc":"2.0","id":7,"result":{"tools":[]}}''],
      body_error = None\<rparr>\<close>

definition unavailable :: upstream_reply where
  "unavailable =
     Reply \<lparr>status_code = 503, resp_headers = [(''mcp-session-id'', lit ''abc123'')],
            body_chunks = [], body_error = None\<rparr>"

definition batch_request :: json where
  "batch_request = JArr [tools_list_request]"


definition accent_whole :: "byte list list" where
  \<open>accent_whole =
     [ascii ''data: {"jsonrpc":"2.0","id":7,"result":"'' @ [0xC3, 0xA9] @ ascii ''"}'' @ [10]]\<close>

definition accent_split :: "byte list list" where
  \<open>accent_split =
     [ascii ''data: {"jsonrpc":"2.0","id":7,"result":"'' @ [0xC3],
      [0xA9] @ ascii ''"}'' @ [10]]\<close>



text \<open>Inbound calls whose id is \<open>NaN\<close> (\<open>request.json()\<close> accepts it).\<close>

definition nan_id_notification :: json where
  "nan_id_notification =
     JObj [(lit ''jsonrpc'', JStr (lit ''2.0'')), (lit ''id'', JFloat NaN),
           (lit ''method'', JStr (lit ''notifications/initialized''))]"

definition nan_id_request :: json where
  "nan_id_request =
     JObj [(lit ''jsonrpc'', JStr (lit ''2.0'')), (lit ''id'', JFloat NaN),
           (lit ''method'', JStr (lit ''tools/list'')), (lit ''params'', JObj [])]"


text \<open>A data line whose payload is the integer of 5000 digits.\<close>

definition digits_chunk :: "byte list" where
  "digits_chunk = ascii ''data: '' @ replicate 5000 0x31 @ [10]"



definition digits_then_unterminated :: http_response where
  \<open>digits_then_unterminated =
     \<lparr>status_code = 200, resp_headers = [],
      body_chunks = [digits_chunk,
                     ascii ''data: {"jsonrpc":"2.0","id":7,"result":{"tools":[]}}''],
      body_error = None\<rparr>\<close>

section \<open>What the event loop keeps true\<close>




section \<open>Literals\<close>

lemma lit_Cons: "lit (c # cs) = of_char c # lit cs"
  by (simp add: lit_def)

lemma lit_Nil: "lit [] = []"
  by (simp add: lit_def)

lemma lit_eq_iff [simp]: "lit a = lit b \<longleftrightarrow> a = b"
  by (simp add: lit_def inj_map_eq_map inj_of_char)

lemma lit_eq_Nil [simp]: "lit s = [] \<longleftrightarrow> s = []"
  by (simp add: lit_def)

lemma length_lit [simp]: "length (lit s) = length s"
  by (simp add: lit_def)

section \<open>The decode loop reads the accumulated text line by line\<close>

lemma split_line_append:
  "newline \<in> set a \<Longrightarrow> split_line (a @ b) = (fst (split_line a), snd (split_line a) @ b)"
proof -
  assume nl: "newline \<in> set a"
  then have ne: "dropWhile (\<lambda>c. c \<noteq> newline) a \<noteq> []"
    by (simp add: dropWhile_eq_Nil_conv)
  from nl have "takeWhile (\<lambda>c. c \<noteq> newline) (a @ b) = takeWhile (\<lambda>c. c \<noteq> newline) a"
    by (simp add: takeWhile_append1)
  moreover from nl have "dropWhile (\<lambda>c. c \<noteq> newline) (a @ b) = dropWhile (\<lambda>c. c \<noteq> newline) a @ b"
    by (simp add: dropWhile_append1)
  ultimately show ?thesis
    using ne by (simp add: split_line_def)
qed

lemma process_buffer_no_newline:
  "newline \<notin> set a \<Longrightarrow> process_buffer env a = More a"
  by (simp add: process_buffer.simps [of env a])

lemma process_buffer_newline:
  "newline \<in> set a \<Longrightarrow>
   process_buffer env a =
     (case process_line env (fst (split_line a)) of
        Skip \<Rightarrow> process_buffer env (snd (split_line a))
      | Found v \<Rightarrow> Done v
      | Raised e \<Rightarrow> Failed e)"
  by (simp add: process_buffer.simps [of env a])

lemma process_buffer_append:
  "process_buffer env (a @ b) =
     (case process_buffer env a of More a' \<Rightarrow> process_buffer env (a' @ b) | Done v \<Rightarrow> Done v | Failed e \<Rightarrow> Failed e)"
proof (induction env a rule: process_buffer.induct)
  case (1 env buffer)
  show ?case
  proof (cases "newline \<in> set buffer")
    case False
    then show ?thesis by (simp add: process_buffer_no_newline)
  next
    case True
    then have nl2: "newline \<in> set (buffer @ b)" by simp
    show ?thesis
    proof (cases "process_line env (fst (split_line buffer))")
      case Skip
      with True 1 show ?thesis
        by (simp add: process_buffer_newline [OF True] process_buffer_newline [OF nl2] split_line_append)
    next
      case (Found v)
      with True show ?thesis
        by (simp add: process_buffer_newline [OF True] process_buffer_newline [OF nl2] split_line_append)
    next
      case (Raised e)
      with True show ?thesis
        by (simp add: process_buffer_newline [OF True] process_buffer_newline [OF nl2] split_line_append)
    qed
  qed
qed

lemma process_buffer_More:
  "process_buffer env a = More b \<Longrightarrow> newline \<notin> set b"
proof (induction env a rule: process_buffer.induct)
  case (1 env buffer)
  show ?case
  proof (cases "newline \<in> set buffer")
    case False
    with 1(2) show ?thesis by (simp add: process_buffer_no_newline)
  next
    case True
    with 1 show ?thesis
      by (cases "process_line env (fst (split_line buffer))")
         (simp_all add: process_buffer_newline [OF True])
  qed
qed

lemma read_stream_text:
  "newline \<notin> set buf \<Longrightarrow>
   read_stream env buf chunks fin =
     (case process_buffer env (buf @ stream_text chunks) of
        More b \<Rightarrow> (case fin of None \<Rightarrow> Exhausted | Some m \<Rightarrow> Broken (OtherException m))
      | Done v \<Rightarrow> Decoded v
      | Failed e \<Rightarrow> Broken e)"
proof (induction chunks arbitrary: buf)
  case Nil
  then show ?case
    by (cases fin) (simp_all add: stream_text_def process_buffer_no_newline)
next
  case (Cons chunk chunks)
  have tx: "buf @ stream_text (chunk # chunks) = (buf @ decode_utf8_ignore chunk) @ stream_text chunks"
    by (simp add: stream_text_def)
  show ?case
  proof (cases "process_buffer env (buf @ decode_utf8_ignore chunk)")
    case (More b)
    then have "newline \<notin> set b" by (rule process_buffer_More)
    from Cons.IH [OF this] More show ?thesis
      by (simp only: tx process_buffer_append [of env "buf @ decode_utf8_ignore chunk"] read_stream.simps scan.case)
  next
    case (Done v)
    then show ?thesis
      by (simp only: tx process_buffer_append [of env "buf @ decode_utf8_ignore chunk"] read_stream.simps scan.case stream_result.case)
  next
    case (Failed e)
    then show ?thesis
      by (simp only: tx process_buffer_append [of env "buf @ decode_utf8_ignore chunk"] read_stream.simps scan.case)
  qed
qed

lemma complete_lines_no_newline: "newline \<notin> set t \<Longrightarrow> complete_lines t = []"
  by (simp add: complete_lines.simps [of t])

lemma complete_lines_newline:
  "newline \<in> set t \<Longrightarrow> complete_lines t = fst (split_line t) # complete_lines (snd (split_line t))"
  by (simp add: complete_lines.simps [of t])

lemma data_payloads_no_newline: "newline \<notin> set t \<Longrightarrow> data_payloads t = []"
  by (simp add: data_payloads_def complete_lines_no_newline)

lemma data_payloads_newline:
  "newline \<in> set t \<Longrightarrow>
   data_payloads t =
     (if startswith (strip (fst (split_line t))) (lit ''data: '')
         \<and> drop 6 (strip (fst (split_line t))) \<noteq> []
         \<and> drop 6 (strip (fst (split_line t))) \<noteq> lit ''[DONE]''
      then [drop 6 (strip (fst (split_line t)))] else [])
     @ data_payloads (snd (split_line t))"
  by (simp add: data_payloads_def complete_lines_newline)

lemma residual_split:
  "newline \<in> set t \<Longrightarrow> residual t = residual (snd (split_line t))"
proof -
  let ?P = "\<lambda>c. c \<noteq> newline"
  assume "newline \<in> set t"
  then have ne: "dropWhile ?P t \<noteq> []"
    by (simp add: dropWhile_eq_Nil_conv)
  then obtain x rest where dw: "dropWhile ?P t = x # rest"
    by (cases "dropWhile ?P t") auto
  with hd_dropWhile [OF ne] have x: "x = newline"
    by simp
  have "t = takeWhile ?P t @ dropWhile ?P t"
    by simp
  with dw x have t: "rev t = rev rest @ newline # rev (takeWhile ?P t)"
    by (metis rev.simps(2) rev_append append_Cons append_Nil append_assoc)
  have "takeWhile ?P (rev rest @ newline # rev (takeWhile ?P t)) = takeWhile ?P (rev rest)"
  proof (cases "\<forall>x\<in>set (rev rest). ?P x")
    case True
    then have a: "takeWhile ?P (rev rest) = rev rest"
      by (rule takeWhile_eq_all_conv [THEN iffD2])
    from True
    have b: "takeWhile ?P (rev rest @ newline # rev (takeWhile ?P t))
            = rev rest @ takeWhile ?P (newline # rev (takeWhile ?P t))"
      by (intro takeWhile_append2) blast
    have c: "takeWhile ?P (newline # rev (takeWhile ?P t)) = []"
      by simp
    show ?thesis
      by (simp only: a b c append_Nil2)
  next
    case False
    then obtain x where "x \<in> set (rev rest)" and "\<not> ?P x"
      by blast
    then show ?thesis
      by (rule takeWhile_append1)
  qed
  then have "takeWhile ?P (rev t) = takeWhile ?P (rev rest)"
    by (simp only: t)
  with dw show ?thesis
    by (simp add: residual_def split_line_def)
qed

lemma process_line_payload:
  "process_line env l =
     (if startswith (strip l) (lit ''data: '')
         \<and> drop 6 (strip l) \<noteq> []
         \<and> drop 6 (strip l) \<noteq> lit ''[DONE]''
      then (case loads env (drop 6 (strip l)) of
              Inr result \<Rightarrow> if dict_has result (lit ''jsonrpc'') then Found result else Skip
            | Inl (JSONDecodeError m) \<Rightarrow> Skip
            | Inl e \<Rightarrow> Raised e)
      else Skip)"
  by (simp add: process_line_def Let_def)

lemma passed_over_Skip:
  "passed_over env p \<Longrightarrow>
     (case loads env p of
        Inr result \<Rightarrow> if dict_has result (lit ''jsonrpc'') then Found result else Skip
      | Inl (JSONDecodeError m) \<Rightarrow> Skip
      | Inl e \<Rightarrow> Raised e) = Skip"
  by (auto simp: passed_over_def split: sum.splits exn.splits)

lemma yields_Found:
  "yields env p v \<Longrightarrow>
     (case loads env p of
        Inr result \<Rightarrow> if dict_has result (lit ''jsonrpc'') then Found result else Skip
      | Inl (JSONDecodeError m) \<Rightarrow> Skip
      | Inl e \<Rightarrow> Raised e) = Found v"
  by (simp add: yields_def)

lemma process_buffer_found:
  "data_payloads t = before @ p # after \<Longrightarrow> \<forall>q\<in>set before. passed_over env q \<Longrightarrow>
   yields env p v \<Longrightarrow> process_buffer env t = Done v"
proof (induction env t arbitrary: before rule: process_buffer.induct)
  case (1 env buffer)
  show ?case
  proof (cases "newline \<in> set buffer")
    case False
    with 1(2) show ?thesis by (simp add: data_payloads_no_newline)
  next
    case True
    let ?l = "fst (split_line buffer)"
    let ?q = "drop 6 (strip ?l)"
    show ?thesis
    proof (cases "startswith (strip ?l) (lit ''data: '') \<and> ?q \<noteq> [] \<and> ?q \<noteq> lit ''[DONE]''")
      case False
      then have sk: "process_line env ?l = Skip"
        by (auto simp: process_line_payload)
      from False 1(2) have "data_payloads (snd (split_line buffer)) = before @ p # after"
        by (simp only: data_payloads_newline [OF True] if_False append_Nil)
      from 1(1) [OF True sk this 1(3) 1(4)] sk show ?thesis
        by (simp add: process_buffer_newline [OF True])
    next
      case q: True
      then have pl: "process_line env ?l =
          (case loads env ?q of
              Inr result \<Rightarrow> if dict_has result (lit ''jsonrpc'') then Found result else Skip
            | Inl (JSONDecodeError m) \<Rightarrow> Skip
            | Inl e \<Rightarrow> Raised e)"
        by (simp add: process_line_payload)
      from q 1(2) have dp: "?q # data_payloads (snd (split_line buffer)) = before @ p # after"
        by (auto simp: data_payloads_newline [OF True])
      show ?thesis
      proof (cases before)
        case Nil
        with dp have "?q = p" by simp
        with pl yields_Found [OF 1(4)] have "process_line env ?l = Found v" by simp
        then show ?thesis by (simp add: process_buffer_newline [OF True])
      next
        case (Cons b before')
        with dp have qb: "?q = b" and rest: "data_payloads (snd (split_line buffer)) = before' @ p # after"
          by simp_all
        from Cons 1(3) have "passed_over env b" and po: "\<forall>q\<in>set before'. passed_over env q"
          by simp_all
        with pl qb passed_over_Skip have sk: "process_line env ?l = Skip" by simp
        from 1(1) [OF True sk rest po 1(4)] sk show ?thesis
          by (simp add: process_buffer_newline [OF True])
      qed
    qed
  qed
qed

lemma process_buffer_none:
  "\<forall>q\<in>set (data_payloads t). passed_over env q \<Longrightarrow> process_buffer env t = More (residual t)"
proof (induction env t rule: process_buffer.induct)
  case (1 env buffer)
  show ?case
  proof (cases "newline \<in> set buffer")
    case False
    then have "\<forall>x\<in>set (rev buffer). x \<noteq> newline"
      by auto
    then have "takeWhile (\<lambda>c. c \<noteq> newline) (rev buffer) = rev buffer"
      by (rule takeWhile_eq_all_conv [THEN iffD2])
    then show ?thesis
      by (simp only: process_buffer_no_newline [OF False] residual_def rev_rev_ident)
  next
    case True
    let ?l = "fst (split_line buffer)"
    let ?q = "drop 6 (strip ?l)"
    have res: "residual buffer = residual (snd (split_line buffer))"
      by (rule residual_split [OF True])
    have sk: "process_line env ?l = Skip"
    proof (cases "startswith (strip ?l) (lit ''data: '') \<and> ?q \<noteq> [] \<and> ?q \<noteq> lit ''[DONE]''")
      case False
      then show ?thesis by (auto simp: process_line_payload)
    next
      case q: True
      with 1(2) have "passed_over env ?q"
        by (simp add: data_payloads_newline [OF True])
      with q passed_over_Skip show ?thesis
        by (simp add: process_line_payload)
    qed
    from 1(2) have "\<forall>q\<in>set (data_payloads (snd (split_line buffer))). passed_over env q"
      by (simp add: data_payloads_newline [OF True])
    from 1(1) [OF True sk this] sk res show ?thesis
      by (simp add: process_buffer_newline [OF True])
  qed
qed

section \<open>The session token\<close>

lemma get_http_client_fields [simp]:
  "session_id (get_http_client s) = session_id s"
  "sent (get_http_client s) = sent s"
  by (simp_all add: get_http_client_def)

lemma handshake_reply_cases:
  "handshake_reply env reply s = (res, s') \<Longrightarrow>
     (\<exists>e. res = Inl e \<and> s' = s \<and> \<not> handshake_ok reply)
     \<or> (\<exists>t. res = Inr t \<and> s' = s\<lparr>session_id := Some t\<rparr> \<and> t \<noteq> [] \<and> handshake_ok reply)"
  by (auto simp: handshake_reply_def handshake_ok_def raise_for_status_def lit_def Let_def
           split: upstream_reply.splits option.splits sum.splits if_splits)

lemma get_or_create_session_hit:
  "session_id s = Some t \<Longrightarrow> get_or_create_session env s = (Inr t, s)"
  by (simp add: get_or_create_session_def)

lemma get_or_create_session_miss:
  "session_id s = None \<Longrightarrow>
   get_or_create_session env s =
     handshake_reply env (upstream env (sent s) init_call)
       ((get_http_client s)\<lparr>sent := sent s @ [init_call]\<rparr>)"
  by (simp add: get_or_create_session_def Let_def)

lemma get_or_create_session_cases:
  assumes "get_or_create_session env s = (res, s')"
  shows "(\<exists>t. session_id s = Some t \<and> res = Inr t \<and> s' = s)
       \<or> (session_id s = None \<and> sent s' = sent s @ [init_call]
            \<and> ((\<exists>e. res = Inl e \<and> session_id s' = None)
               \<or> (\<exists>t. res = Inr t \<and> session_id s' = Some t \<and> t \<noteq> [])))"
proof (cases "session_id s")
  case (Some t)
  with assms show ?thesis
    by (simp add: get_or_create_session_hit)
next
  case None
  with assms have
    "handshake_reply env (upstream env (sent s) init_call)
       ((get_http_client s)\<lparr>sent := sent s @ [init_call]\<rparr>) = (res, s')"
    by (simp add: get_or_create_session_miss)
  from handshake_reply_cases [OF this] None show ?thesis
    by auto
qed

lemma ensure_session_cases:
  assumes "ensure_session env method s = (r, s')"
  shows "(method = JStr (lit ''initialize'') \<and> r = None \<and> s' = s)
       \<or> (method \<noteq> JStr (lit ''initialize'') \<and>
            ((\<exists>t. session_id s = Some t \<and> r = None \<and> s' = s)
             \<or> (session_id s = None \<and> sent s' = sent s @ [init_call]
                 \<and> ((\<exists>e. r = Some e \<and> session_id s' = None)
                    \<or> (\<exists>t. r = None \<and> session_id s' = Some t \<and> t \<noteq> [])))))"
proof (cases "method = JStr (lit ''initialize'')")
  case True
  with assms show ?thesis
    by (simp add: ensure_session_def)
next
  case False
  obtain res s1 where g: "get_or_create_session env s = (res, s1)"
    by (cases "get_or_create_session env s")
  with assms False have "s' = s1" and "r = (case res of Inl e \<Rightarrow> Some e | Inr t \<Rightarrow> None)"
    by (auto simp: ensure_session_def split: sum.splits)
  with get_or_create_session_cases [OF g] False show ?thesis
    by auto
qed

section \<open>The forwarded call\<close>

lemma forward_state:
  "forward env body request_id s = (res, s') \<Longrightarrow>
     session_id s' = session_id s \<and> sent s' = sent s @ [forward_call body s]"
  by (auto simp: forward_def Let_def forward_call_def forward_headers_def
           split: upstream_reply.splits sum.splits if_splits stream_result.splits)

lemma forward_reply:
  assumes "upstream env (sent s) (forward_call body s) = Reply r"
      and "200 \<le> status_code r" and "status_code r \<le> 299"
  shows "fst (forward env body request_id s) =
           (if status_code r = 202 then json_response env 200 (result_envelope request_id)
            else (case read_stream env [] (body_chunks r) (body_error r) of
                    Decoded v \<Rightarrow> json_response env 200 v
                  | Exhausted \<Rightarrow> json_response env 500 (error_envelope request_id no_response_text)
                  | Broken e \<Rightarrow> Inl e))"
proof -
  have "forward_call body (get_http_client s) = forward_call body s"
    by (simp add: forward_call_def forward_headers_def)
  with assms show ?thesis
    by (simp add: forward_def Let_def raise_for_status_def split: stream_result.splits)
qed

lemma handle_jsonrpc_forward:
  assumes "dict_get body (lit ''method'') = Inr method"
      and "dict_get body (lit ''id'') = Inr request_id"
      and "ensure_session env method s = (None, s1)"
  shows "fst (handle_jsonrpc env (Inr body) s) =
           (case fst (forward env body request_id s1) of
              Inr (code, content) \<Rightarrow> Responded code content
            | Inl e \<Rightarrow> except_clause env (Some body) e)"
  using assms
  by (cases "forward env body request_id s1")
     (auto simp: handle_jsonrpc_def try_block_def split: sum.splits prod.splits)

section \<open>Rendering\<close>

lemma json_response_renderable:
  "renderable content \<Longrightarrow> json_response env code content = Inr (code, content)"
  by (simp add: json_response_def)

lemma json_response_not_renderable:
  "\<not> renderable content \<Longrightarrow>
   json_response env code content = Inl (OtherException (render_error_text env content))"
  by (simp add: json_response_def)

lemma renderable_small_int [simp]: "\<bar>i\<bar> < 100000 \<Longrightarrow> renderable (JInt i)"
proof -
  assume "\<bar>i\<bar> < 100000"
  also have "(100000 :: int) = 10 ^ 5"
    by simp
  also have "\<dots> \<le> 10 ^ max_str_digits"
    by (rule power_increasing) (simp_all add: max_str_digits_def)
  finally show ?thesis
    by (simp add: renderable.simps(3))
qed

lemma encodes_lit [simp]: "encodes (lit t)"
proof -
  have "(of_char c :: nat) < 55296" for c
    by (rule less_trans [OF nat_of_char_less_256]) simp
  then have "scalar_value (of_char c)" for c
    by (simp add: scalar_value_def)
  then show ?thesis
    by (simp add: encodes_def lit_def list_all_iff)
qed

lemma encodes_append [simp]: "encodes (a @ b) \<longleftrightarrow> encodes a \<and> encodes b"
  by (simp add: encodes_def)

lemma renderable_result_envelope [simp]:
  "renderable (result_envelope request_id) \<longleftrightarrow> renderable request_id"
  by (simp add: result_envelope_def)

lemma renderable_error_envelope [simp]:
  "renderable (error_envelope request_id message) \<longleftrightarrow> renderable request_id \<and> encodes message"
  by (simp add: error_envelope_def)

lemma encodes_no_response_text [simp]: "encodes no_response_text"
  by (simp add: no_response_text_def)

text \<open>An \<open>except\<close> clause answers when the inbound id and the message render.\<close>

lemma except_clause_renders:
  assumes "dict_get body (lit ''id'') = Inr request_id"
      and "renderable request_id" and "encodes (str_exn e)"
  shows "except_clause env (Some body) e =
           Responded 500
             (error_envelope request_id
                ((case e of
                    HTTPStatusError m \<Rightarrow> lit ''FastMCP server error: ''
                  | _ \<Rightarrow> lit ''Internal error: '') @ str_exn e))"
  using assms by (cases e) (simp_all add: except_clause_def json_response_renderable)

text \<open>With an inbound id that does not render, an \<open>except\<close> clause raises in its turn.\<close>

lemma except_clause_escapes:
  assumes "dict_get body (lit ''id'') = Inr request_id"
      and "\<not> renderable request_id"
  shows "\<exists>content. except_clause env (Some body) e
                     = Escaped (OtherException (render_error_text env content))"
  using assms by (auto simp: except_clause_def json_response_def)

lemma stream_text_append: "stream_text (cs1 @ cs2) = stream_text cs1 @ stream_text cs2"
  by (simp add: stream_text_def)

lemma read_stream_found:
  assumes "data_payloads (stream_text cs1) = before @ p # after"
      and "\<forall>q\<in>set before. passed_over env q"
      and "yields env p v"
  shows "read_stream env [] (cs1 @ cs2) fin = Decoded v"
proof -
  from assms have "process_buffer env (stream_text cs1) = Done v"
    by (rule process_buffer_found)
  then have "process_buffer env ([] @ stream_text (cs1 @ cs2)) = Done v"
    by (simp add: stream_text_append process_buffer_append)
  then show ?thesis
    by (simp add: read_stream_text)
qed

lemma read_stream_none:
  assumes "\<forall>q\<in>set (data_payloads (stream_text cs)). passed_over env q"
  shows "read_stream env [] cs None = Exhausted"
proof -
  from assms have "process_buffer env ([] @ stream_text cs) = More (residual (stream_text cs))"
    by (simp add: process_buffer_none)
  then show ?thesis
    by (simp add: read_stream_text)
qed

lemma read_stream_chunking:
  "stream_text cs = stream_text cs' \<Longrightarrow> read_stream env [] cs fin = read_stream env [] cs' fin"
  by (simp add: read_stream_text)

lemma except_clause_message:
  assumes "except_clause env b e = Responded code (error_envelope rid m)"
  shows "m \<noteq> no_response_text"
proof -
  have n: "hd no_response_text = 78"
    by (simp add: no_response_text_def lit_Cons)
  have f: "hd (lit ''FastMCP server error: '' @ x) = 70" for x
    by (simp add: lit_Cons)
  have i: "hd (lit ''Internal error: '' @ x) = 73" for x
    by (simp add: lit_Cons)
  from assms have "m = lit ''FastMCP server error: '' @ str_exn e
                 \<or> m = lit ''Internal error: '' @ str_exn e"
    by (auto simp: except_clause_def error_envelope_def json_response_def
             split: sum.splits option.splits exn.splits if_splits)
  then have "hd m = 70 \<or> hd m = 73"
    using f i by auto
  with n show ?thesis
    by auto
qed

lemma example_handshake:
  "method \<noteq> JStr (lit ''initialize'') \<Longrightarrow>
   ensure_session (example_env session_reply later) method initial_bridge = (None, with_session)"
  by (simp add: ensure_session_def get_or_create_session_def handshake_reply_def
        raise_for_status_def example_env_def session_reply_def initial_bridge_def
        get_http_client_def with_session_def header_get_def Let_def)

section \<open>The example runs, evaluated\<close>

lemma tools_chunks_text:
  \<open>stream_text tools_chunks =
     lit '': ping'' @ [10] @ lit ''data: not json'' @ [10]
       @ lit ''data: {"jsonrpc":"2.0","id":7,"result":{"tools":[]}}'' @ [13, 10]\<close>
  by code_simp

lemma tools_chunks_payloads:
  "data_payloads (stream_text tools_chunks) = [lit ''not json''] @ tools_list_text # []"
  by (simp add: tools_chunks_text data_payloads_def complete_lines_newline
        complete_lines_no_newline split_line_def newline_def strip_def startswith_def
        is_space_def tools_list_text_def lit_Cons lit_Nil)



lemma unterminated_text:
  \<open>stream_text (body_chunks unterminated_stream) =
     lit '': ping'' @ [10] @ lit ''data: {"jsonrpc":"2.0","id":7,"result":{"tools":[]}}''\<close>
  by code_simp

lemma unterminated_payloads:
  "data_payloads (stream_text (body_chunks unterminated_stream)) = []"
  by (simp add: unterminated_text data_payloads_def complete_lines_newline
        complete_lines_no_newline split_line_def newline_def strip_def startswith_def
        is_space_def lit_Cons lit_Nil)

lemma unterminated_residual:
  \<open>residual (stream_text (body_chunks unterminated_stream)) =
     lit ''data: {"jsonrpc":"2.0","id":7,"result":{"tools":[]}}''\<close>
  by (simp add: unterminated_text residual_def newline_def lit_Cons lit_Nil)

lemma not_long_digits: "length p < 5000 \<Longrightarrow> p \<noteq> long_digits"
  by (auto simp: long_digits_def)

lemma example_yields:
  "yields (example_env first later) tools_list_text tools_list_response"
  by (simp add: yields_def example_env_def example_loads_def tools_list_response_def dict_has_def)

lemma example_passed_over:
  "passed_over (example_env first later) (lit ''not json'')"
  by (simp add: passed_over_def example_env_def example_loads_def tools_list_text_def
        initialize_text_def accent_text_def no_accent_text_def nan_text_def not_long_digits
        lit_Cons lit_Nil)

lemma unterminated_line:
  \<open>process_line (example_env first later)
      (lit ''data: {"jsonrpc":"2.0","id":7,"result":{"tools":[]}}'') = Found tools_list_response\<close>
  by (simp add: process_line_def strip_def startswith_def is_space_def example_env_def
        example_loads_def tools_list_text_def tools_list_response_def dict_has_def lit_Cons lit_Nil)

section \<open>The gateway and the session token\<close>

lemma try_block_state:
  assumes "try_block env body s = (res, s')"
      and "dict_get body (lit ''method'') = Inr method"
  shows "\<exists>r s1. ensure_session env method s = (r, s1)
           \<and> ((\<exists>e. r = Some e \<and> s' = s1)
              \<or> (r = None \<and> session_id s' = session_id s1
                  \<and> sent s' = sent s1 @ [forward_call body s1]))"
proof -
  obtain rid where rid: "dict_get body (lit ''id'') = Inr rid"
    using assms(2) by (cases body) (simp_all add: dict_get_def)
  obtain r s1 where es: "ensure_session env method s = (r, s1)"
    by (cases "ensure_session env method s")
  show ?thesis
  proof (cases r)
    case None
    with assms rid es have "forward env body rid s1 = (res, s')"
      by (simp add: try_block_def)
    from forward_state [OF this] es None show ?thesis
      by simp
  next
    case (Some e)
    with assms rid es show ?thesis
      by (simp add: try_block_def)
  qed
qed

lemma handle_jsonrpc_state:
  "handle_jsonrpc env (Inr body) s = (out, s') \<Longrightarrow> \<exists>res. try_block env body s = (res, s')"
  by (cases "try_block env body s") (auto simp: handle_jsonrpc_def split: sum.splits prod.splits)

lemma try_block_not_dict:
  "dict_get body (lit ''method'') = Inl e \<Longrightarrow> try_block env body s = (Inl e, s)"
  by (simp add: try_block_def)

lemma forward_headers_session:
  "session_id s \<noteq> Some [] \<Longrightarrow> map_of (forward_headers s) ''mcp-session-id'' = session_id s"
  by (cases "session_id s") (simp_all add: forward_headers_def base_headers_def)

lemma forward_snd:
  "snd (forward env body request_id s) = (get_http_client s)\<lparr>sent := sent s @ [forward_call body s]\<rparr>"
proof -
  have "forward_call body (get_http_client s) = forward_call body s"
    by (simp add: forward_call_def forward_headers_def)
  then show ?thesis
    by (simp add: forward_def Let_def split: upstream_reply.splits sum.splits stream_result.splits)
qed

lemma handle_jsonrpc_forward_snd:
  assumes "dict_get body (lit ''method'') = Inr method"
      and "dict_get body (lit ''id'') = Inr request_id"
      and "ensure_session env method s = (None, s1)"
  shows "snd (handle_jsonrpc env (Inr body) s) = snd (forward env body request_id s1)"
  using assms
  by (cases "forward env body request_id s1")
     (auto simp: handle_jsonrpc_def try_block_def split: sum.splits prod.splits)


lemma renderable_examples [simp]:
  "renderable tools_list_response" "renderable initialize_response"
  by (simp_all add: tools_list_response_def initialize_response_def)

lemma tools_list_run:
  "handle_jsonrpc (example_env session_reply (Reply tools_stream)) (Inr tools_list_request)
     initial_bridge
   = (Responded 200 tools_list_response,
      with_session\<lparr>sent := [init_call, forward_call tools_list_request with_session]\<rparr>)"
proof -
  let ?env = "example_env session_reply (Reply tools_stream)"
  have m: "dict_get tools_list_request (lit ''method'') = Inr (JStr (lit ''tools/list''))"
    by (simp add: dict_get_def tools_list_request_def)
  have i: "dict_get tools_list_request (lit ''id'') = Inr (JInt 7)"
    by (simp add: dict_get_def tools_list_request_def)
  have e: "ensure_session ?env (JStr (lit ''tools/list'')) initial_bridge = (None, with_session)"
    by (rule example_handshake) simp
  have u: "upstream ?env (sent with_session) (forward_call tools_list_request with_session)
             = Reply tools_stream"
    by (simp add: example_env_def with_session_def)
  have s1: "200 \<le> status_code tools_stream" and s2: "status_code tools_stream \<le> 299"
    and s3: "status_code tools_stream \<noteq> 202"
    by (simp_all add: tools_stream_def)
  have c: "body_chunks tools_stream = tools_chunks @ [ascii ''data: never read'']"
    by (simp add: tools_stream_def)
  have p: "\<forall>q\<in>set [lit ''not json'']. passed_over ?env q"
    by (simp add: example_passed_over)
  have "read_stream ?env [] (body_chunks tools_stream) (body_error tools_stream)
          = Decoded tools_list_response"
    unfolding c by (rule read_stream_found [OF tools_chunks_payloads p example_yields])
  with s3 have "fst (forward ?env tools_list_request (JInt 7) with_session)
                  = Inr (200, tools_list_response)"
    by (simp add: forward_reply [OF u s1 s2] json_response_renderable)
  then have f: "fst (handle_jsonrpc ?env (Inr tools_list_request) initial_bridge)
                  = Responded 200 tools_list_response"
    by (simp add: handle_jsonrpc_forward [OF m i e])
  have "snd (handle_jsonrpc ?env (Inr tools_list_request) initial_bridge)
          = with_session\<lparr>sent := [init_call, forward_call tools_list_request with_session]\<rparr>"
    by (simp add: handle_jsonrpc_forward_snd [OF m i e] forward_snd get_http_client_def
          with_session_def)
  with f show ?thesis
    by (simp add: prod_eq_iff)
qed

lemma accent_whole_text:
  \<open>stream_text accent_whole = lit ''data: '' @ accent_text @ [10]\<close>
  by code_simp

lemma accent_split_text:
  \<open>stream_text accent_split = lit ''data: '' @ no_accent_text @ [10]\<close>
  by code_simp

lemma accent_whole_payloads:
  "data_payloads (stream_text accent_whole) = [] @ accent_text # []"
  by (simp add: accent_whole_text data_payloads_def complete_lines_newline
        complete_lines_no_newline split_line_def newline_def strip_def startswith_def
        is_space_def accent_text_def lit_Cons lit_Nil)

lemma accent_split_payloads:
  "data_payloads (stream_text accent_split) = [] @ no_accent_text # []"
  by (simp add: accent_split_text data_payloads_def complete_lines_newline
        complete_lines_no_newline split_line_def newline_def strip_def startswith_def
        is_space_def no_accent_text_def lit_Cons lit_Nil)

lemma accent_yields:
  "yields (example_env first later) accent_text accent_response"
  by (simp add: yields_def example_env_def example_loads_def accent_response_def dict_has_def
        accent_text_def tools_list_text_def initialize_text_def lit_Cons lit_Nil)

lemma no_accent_yields:
  "yields (example_env first later) no_accent_text no_accent_response"
  by (simp add: yields_def example_env_def example_loads_def no_accent_response_def dict_has_def
        accent_text_def no_accent_text_def tools_list_text_def initialize_text_def lit_Cons lit_Nil)

lemma decode_ascii:
  "\<forall>b\<in>set bs. b < 0x80 \<Longrightarrow> decode_utf8_ignore bs = map unat bs"
  by (induction bs) simp_all

lemma chunking_invariant_ascii:
  assumes "concat cs = concat cs'" and "\<forall>b\<in>set (concat cs). b < 0x80"
  shows "read_stream env [] cs fin = read_stream env [] cs' fin"
proof -
  have t: "stream_text xs = map unat (concat xs)" if "\<forall>b\<in>set (concat xs). b < 0x80" for xs
    using that by (induction xs) (simp_all add: stream_text_def decode_ascii)
  from assms have "stream_text cs = stream_text cs'"
    by (simp add: t)
  then show ?thesis
    by (rule read_stream_chunking)
qed

lemma handle_jsonrpc_invalid_json:
  "encodes m \<Longrightarrow>
   handle_jsonrpc env (Inl (JSONDecodeError m)) s
     = (Responded 500 (error_envelope JNull (lit ''Internal error: '' @ m)), s)"
  by (simp add: handle_jsonrpc_def except_clause_def json_response_renderable)

text \<open>
  An inbound body that is an object is answered with status 200 or 500, unless the
  rendering of a response raises in an \<open>except\<close> clause.
\<close>

lemma handle_jsonrpc_dict_responds:
  assumes "handle_jsonrpc env (Inr (JObj kvs)) s = (out, s')"
  shows "(\<exists>code v. out = Responded code v \<and> (code = 200 \<or> code = 500))
       \<or> (\<exists>content. \<not> renderable content
             \<and> out = Escaped (OtherException (render_error_text env content)))"
proof -
  obtain res s1 where tb: "try_block env (JObj kvs) s = (res, s1)"
    by (cases "try_block env (JObj kvs) s")
  show ?thesis
  proof (cases res)
    case (Inl e)
    let ?content = "error_envelope (case map_of kvs (lit ''id'') of Some x \<Rightarrow> x | None \<Rightarrow> JNull)
                      ((case e of
                          HTTPStatusError m \<Rightarrow> lit ''FastMCP server error: ''
                        | _ \<Rightarrow> lit ''Internal error: '') @ str_exn e)"
    from assms tb Inl have out: "out = except_clause env (Some (JObj kvs)) e"
      by (simp add: handle_jsonrpc_def)
    show ?thesis
    proof (cases "renderable ?content")
      case True
      then have "out = Responded 500 ?content"
        by (simp add: out except_clause_def dict_get_def json_response_renderable)
      then show ?thesis
        by blast
    next
      case False
      then have "out = Escaped (OtherException (render_error_text env ?content))"
        by (simp add: out except_clause_def dict_get_def json_response_not_renderable)
      with False show ?thesis
        by blast
    qed
  next
    case (Inr cv)
    obtain code v where cv: "cv = (code, v)" by (cases cv)
    obtain r s2 where es: "ensure_session env (case map_of kvs (lit ''method'') of Some x \<Rightarrow> x | None \<Rightarrow> JNull) s = (r, s2)"
      by (cases "ensure_session env (case map_of kvs (lit ''method'') of Some x \<Rightarrow> x | None \<Rightarrow> JNull) s")
    from tb Inr cv es have "code = 200 \<or> code = 500"
      by (auto simp: try_block_def dict_get_def forward_def Let_def json_response_def
               split: option.splits upstream_reply.splits sum.splits if_splits stream_result.splits)
    with assms tb Inr cv show ?thesis
      by (auto simp: handle_jsonrpc_def)
  qed
qed




section \<open>Concurrent callers: one handshake, one token\<close>






lemma length_callers_resume [simp]: "length (callers (resume env i c)) = length (callers c)"
  by (simp add: resume_def Let_def split: caller.splits option.splits prod.splits sum.splits)

lemma length_callers_run [simp]: "length (callers (run env schedule c)) = length (callers c)"
  by (induction schedule arbitrary: c) simp_all


















lemma run_append: "run env (xs @ ys) c = run env ys (run env xs c)"
  by (induction xs arbitrary: c) simp_all

text \<open>One caller alone, resumed twice, does what \<open>get_or_create_session\<close> does.\<close>

lemma resume_sequential:
  assumes "callers c = [Waiting]" and "\<not> locked c"
  shows "globals (run env [0, 0] c) = snd (get_or_create_session env (globals c))
       \<and> callers (run env [0, 0] c)
           = [case fst (get_or_create_session env (globals c)) of
                Inl e \<Rightarrow> Raising e | Inr token \<Rightarrow> Returned token]
       \<and> \<not> locked (run env [0, 0] c)"
proof (cases "session_id (globals c)")
  case (Some token)
  with assms show ?thesis
    by (simp add: resume_def get_or_create_session_hit)
next
  case None
  obtain res s' where
    h: "handshake_reply env (upstream env (sent (globals c)) init_call)
          ((get_http_client (globals c))\<lparr>sent := sent (globals c) @ [init_call]\<rparr>) = (res, s')"
    by (cases "handshake_reply env (upstream env (sent (globals c)) init_call)
          ((get_http_client (globals c))\<lparr>sent := sent (globals c) @ [init_call]\<rparr>)")
  with assms None show ?thesis
    by (cases res) (simp_all add: resume_def get_or_create_session_miss Let_def)
qed






section \<open>A line that \<open>json.loads\<close> refuses with another exception\<close>

lemma split_line_line:
  assumes "newline \<notin> set l"
  shows "split_line (l @ newline # rest) = (l, rest)"
proof -
  let ?P = "\<lambda>c. c \<noteq> newline"
  from assms have all: "\<forall>x\<in>set l. ?P x"
    by auto
  then have "takeWhile ?P l = l" and "dropWhile ?P l = []"
    by (simp_all add: takeWhile_eq_all_conv dropWhile_eq_Nil_conv)
  moreover have "takeWhile ?P (l @ newline # rest) = takeWhile ?P l"
    by (rule takeWhile_tail) simp
  moreover have "dropWhile ?P (l @ newline # rest) = dropWhile ?P l @ newline # rest"
    by (rule dropWhile_append3) simp
  ultimately show ?thesis
    by (simp add: split_line_def)
qed

lemma process_buffer_line:
  assumes "newline \<notin> set l"
  shows "process_buffer env (l @ newline # rest) =
           (case process_line env l of
              Skip \<Rightarrow> process_buffer env rest
            | Found v \<Rightarrow> Done v
            | Raised e \<Rightarrow> Failed e)"
proof -
  have "newline \<in> set (l @ newline # rest)"
    by simp
  from process_buffer_newline [OF this] show ?thesis
    by (simp add: split_line_line [OF assms] split: line_result.splits)
qed

lemma strip_id:
  assumes "t \<noteq> []" and "\<not> is_space (hd t)" and "\<not> is_space (last t)"
  shows "strip t = t"
proof -
  from assms(1,2) have a: "dropWhile is_space t = t"
    by (cases t) simp_all
  from assms(1,3) have "dropWhile is_space (rev t) = rev t"
    by (cases "rev t") (simp_all add: hd_rev [symmetric])
  with a show ?thesis
    by (simp add: strip_def)
qed

lemma process_line_data:
  assumes "p \<noteq> []" and "\<not> is_space (last p)" and "p \<noteq> lit ''[DONE]''"
  shows "process_line env (lit ''data: '' @ p) =
           (case loads env p of
              Inr result \<Rightarrow> if dict_has result (lit ''jsonrpc'') then Found result else Skip
            | Inl (JSONDecodeError m) \<Rightarrow> Skip
            | Inl e \<Rightarrow> Raised e)"
proof -
  have "strip (lit ''data: '' @ p) = lit ''data: '' @ p"
    using assms(1,2) by (intro strip_id) (simp_all add: lit_Cons is_space_def)
  moreover have "startswith (lit ''data: '' @ p) (lit ''data: '')"
    by (simp add: startswith_def)
  moreover have "drop 6 (lit ''data: '' @ p) = p"
    by simp
  ultimately show ?thesis
    using assms(1,3) by (simp add: process_line_payload)
qed

lemma long_digits_line:
  "process_line (example_env first later) (lit ''data: '' @ long_digits)
     = Raised (OtherException digits_limit_text)"
proof -
  have n: "length p < 5000 \<Longrightarrow> long_digits \<noteq> p" for p
    using not_long_digits [of p] by auto
  have a: "long_digits \<noteq> []" and b: "\<not> is_space (last long_digits)"
    by (simp_all add: long_digits_def is_space_def)
  have c: "long_digits \<noteq> lit ''[DONE]''"
    by (rule n) simp
  have "loads (example_env first later) long_digits = Inl (OtherException digits_limit_text)"
    by (simp add: example_env_def example_loads_def n tools_list_text_def initialize_text_def
          accent_text_def no_accent_text_def nan_text_def)
  then show ?thesis
    by (simp add: process_line_data [OF a b c])
qed

lemma digits_chunk_text:
  "decode_utf8_ignore digits_chunk = (lit ''data: '' @ long_digits) @ newline # []"
proof -
  have "\<forall>b\<in>set digits_chunk. b < 0x80"
    by (auto simp: digits_chunk_def ascii_def) 
  then have "decode_utf8_ignore digits_chunk = map unat digits_chunk"
    by (rule decode_ascii)
  also have "\<dots> = (lit ''data: '' @ long_digits) @ newline # []"
    by (simp add: digits_chunk_def ascii_def lit_def long_digits_def newline_def)
  finally show ?thesis .
qed

lemma digits_chunk_raises:
  "read_stream (example_env first later) [] (digits_chunk # rest) fin
     = Broken (OtherException digits_limit_text)"
proof -
  have "newline \<notin> set (lit ''data: '' @ long_digits)"
    by (auto simp: long_digits_def lit_def newline_def)
  from process_buffer_line [OF this]
  have "process_buffer (example_env first later) (decode_utf8_ignore digits_chunk)
          = Failed (OtherException digits_limit_text)"
    by (simp add: digits_chunk_text long_digits_line)
  then show ?thesis
    by simp
qed


text \<open>
  The \<open>tools/list\<close> request on a fresh bridge, answered with status 200 and a stream
  that starts with the line of 5000 digits.
\<close>

lemma digits_line_run:
  assumes "status_code r = 200" and "body_chunks r = digits_chunk # rest"
  shows "fst (handle_jsonrpc (example_env session_reply (Reply r)) (Inr tools_list_request)
                initial_bridge)
           = Responded 500 (error_envelope (JInt 7) (lit ''Internal error: '' @ digits_limit_text))"
proof -
  let ?env = "example_env session_reply (Reply r)"
  have m: "dict_get tools_list_request (lit ''method'') = Inr (JStr (lit ''tools/list''))"
    by (simp add: dict_get_def tools_list_request_def)
  have i: "dict_get tools_list_request (lit ''id'') = Inr (JInt 7)"
    by (simp add: dict_get_def tools_list_request_def)
  have enc: "encodes (str_exn (OtherException digits_limit_text))"
    by (simp add: digits_limit_text_def)
  have e: "ensure_session ?env (JStr (lit ''tools/list'')) initial_bridge = (None, with_session)"
    by (rule example_handshake) simp
  have u: "upstream ?env (sent with_session) (forward_call tools_list_request with_session)
             = Reply r"
    by (simp add: example_env_def with_session_def)
  from assms(1) have s1: "200 \<le> status_code r" and s2: "status_code r \<le> 299"
    and s3: "status_code r \<noteq> 202"
    by simp_all
  have "read_stream ?env [] (body_chunks r) (body_error r)
          = Broken (OtherException digits_limit_text)"
    by (simp only: assms(2) digits_chunk_raises)
  with s3 have "fst (forward ?env tools_list_request (JInt 7) with_session)
                  = Inl (OtherException digits_limit_text)"
    by (simp add: forward_reply [OF u s1 s2])
  then show ?thesis
    using except_clause_renders [OF i _ enc, of ?env]
    by (simp add: handle_jsonrpc_forward [OF m i e])
qed

text \<open>
  With an inbound id that does not render, the answer to a 202 and the answer after an
  exhausted stream raise inside the \<open>try\<close>, and the \<open>except\<close> clause raises again.
\<close>

lemma unrenderable_id_escapes:
  assumes "dict_get body (lit ''method'') = Inr method"
      and "dict_get body (lit ''id'') = Inr request_id"
      and "ensure_session env method s = (None, s1)"
      and "upstream env (sent s1) (forward_call body s1) = Reply r"
      and "200 \<le> status_code r" and "status_code r \<le> 299"
      and "status_code r = 202 \<or> read_stream env [] (body_chunks r) (body_error r) = Exhausted"
      and "\<not> renderable request_id"
  shows "\<exists>content. fst (handle_jsonrpc env (Inr body) s)
                     = Escaped (OtherException (render_error_text env content))"
proof -
  from assms(7,8) have "\<exists>content. fst (forward env body request_id s1)
                           = Inl (OtherException (render_error_text env content))"
    by (auto simp: forward_reply [OF assms(4-6)] json_response_def)
  then obtain c where "fst (forward env body request_id s1)
                         = Inl (OtherException (render_error_text env c))"
    ..
  then have "fst (handle_jsonrpc env (Inr body) s)
               = except_clause env (Some body) (OtherException (render_error_text env c))"
    by (simp add: handle_jsonrpc_forward [OF assms(1-3)])
  with except_clause_escapes [OF assms(2,8)] show ?thesis
    by simp
qed




text \<open>What \<open>body.get\<close> finds in a body that renders, renders.\<close>

lemma dict_get_renderable:
  assumes "renderable body" and "dict_get body k = Inr v"
  shows "renderable v"
proof -
  from assms(2) obtain kvs where JObj: "body = JObj kvs"
    by (cases body) (simp_all add: dict_get_def)
  show ?thesis
  proof (cases "map_of kvs k")
    case None
    with assms(2) JObj show ?thesis
      by (simp add: dict_get_def)
  next
    case (Some x)
    then have "(k, x) \<in> set kvs"
      by (rule map_of_SomeD)
    with assms(1) JObj have "renderable x"
      by auto
    with assms(2) JObj Some show ?thesis
      by (simp add: dict_get_def)
  qed
qed

section \<open>The claims of the specification\<close>




text \<open>
  Claim C2. An inbound body that is valid JSON but not an object (here a JSON-RPC batch,
  an array) makes \<open>body.get("method")\<close> raise \<open>AttributeError\<close>; the \<open>except Exception\<close>
  clause catches it and evaluates \<open>body.get("id")\<close> again while it builds the error
  response, which raises the same exception outside any \<open>try\<close>: the exception leaves
  \<open>handle_jsonrpc\<close> and no envelope is returned. (A body that is not valid JSON gets the
  envelope with id null and status 500, and a body that is an object gets a response
  with status 200 or 500 unless the rendering of the error response raises in its turn:
  \<open>handle_jsonrpc_invalid_json\<close>, \<open>handle_jsonrpc_dict_responds\<close>.)
\<close>

theorem batch_request_escapes:
  "handle_jsonrpc env (Inr batch_request) s
     = (Escaped (AttributeError
          (lit ([CHR 0x27] @ ''list'' @ [CHR 0x27] @ '' object has no attribute ''
                 @ [CHR 0x27] @ ''get'' @ [CHR 0x27]))), s)"
  by (simp add: handle_jsonrpc_def try_block_def except_clause_def dict_get_def
        batch_request_def type_name_def)




text \<open>
  Claim C4. Every chunk is decoded on its own with \<open>errors='ignore'\<close>, so a chunk boundary
  inside a multi-byte UTF-8 sequence drops the character: the lead byte ends the first
  chunk (unexpected end of data) and the continuation byte starts the next (invalid
  start byte). The same bytes, sent as one chunk and sent cut inside the two bytes of
  U+00E9, give two different objects. (For text whose chunk boundaries fall between
  characters the loop does not depend on the chunking: \<open>read_stream_chunking\<close>,
  \<open>chunking_invariant_ascii\<close>.)
\<close>

theorem split_character_changes_result:
  "concat accent_split = concat accent_whole
   \<and> read_stream (example_env first later) [] accent_whole None = Decoded accent_response
   \<and> read_stream (example_env first later) [] accent_split None = Decoded no_accent_response
   \<and> accent_response \<noteq> no_accent_response"
proof -
  have a: "concat accent_split = concat accent_whole"
    by (simp add: accent_split_def accent_whole_def)
  have "read_stream (example_env first later) [] (accent_whole @ []) None = Decoded accent_response"
    by (rule read_stream_found [OF accent_whole_payloads _ accent_yields]) simp
  then have b: "read_stream (example_env first later) [] accent_whole None = Decoded accent_response"
    by simp
  have "read_stream (example_env first later) [] (accent_split @ []) None
          = Decoded no_accent_response"
    by (rule read_stream_found [OF accent_split_payloads _ no_accent_yields]) simp
  then have c: "read_stream (example_env first later) [] accent_split None
                  = Decoded no_accent_response"
    by simp
  have d: "accent_response \<noteq> no_accent_response"
    by (simp add: accent_response_def no_accent_response_def)
  from a b c d show ?thesis
    by blast
qed

text \<open>
  Claim C5, as stated, fails for an inbound id that \<open>JSONResponse\<close> cannot render.
  \<open>request.json()\<close> accepts \<open>NaN\<close> as an id. When the upstream answers the forwarded
  call with 202, \<open>JSONResponse\<close> raises \<open>ValueError\<close> on the envelope with that id inside
  the \<open>try\<close>, and the \<open>except Exception\<close> clause raises it again while it builds the
  error envelope with the same id: the exception leaves the handler and no response
  with status 200 is returned. That is with an httpx that sends \<open>NaN\<close>, as \<open>json.dumps\<close>
  writes it by default. With an httpx that refuses \<open>NaN\<close> when it encodes the body, the
  forwarded call raises the same \<open>ValueError\<close> before anything is sent, and the handler
  is left in the same way (the second part).
\<close>

theorem accepted_nan_id_escapes:
  "fst (handle_jsonrpc (example_env session_reply (Reply accepted)) (Inr nan_id_notification)
          initial_bridge)
     = Escaped (OtherException (lit ''Out of range float values are not JSON compliant''))
   \<and> fst (handle_jsonrpc
            (example_env session_reply
               (NoReply (lit ''Out of range float values are not JSON compliant'')))
            (Inr nan_id_notification) initial_bridge)
     = Escaped (OtherException (lit ''Out of range float values are not JSON compliant''))"
proof -
  let ?env = "example_env session_reply (Reply accepted)"
  let ?env2 = "example_env session_reply
                 (NoReply (lit ''Out of range float values are not JSON compliant''))"
  let ?e = "OtherException (lit ''Out of range float values are not JSON compliant'')"
  have m: "dict_get nan_id_notification (lit ''method'')
             = Inr (JStr (lit ''notifications/initialized''))"
    by (simp add: dict_get_def nan_id_notification_def)
  have i: "dict_get nan_id_notification (lit ''id'') = Inr (JFloat NaN)"
    by (simp add: dict_get_def nan_id_notification_def)
  have n: "\<not> renderable (JFloat NaN)"
    by simp
  have a: "fst (handle_jsonrpc ?env (Inr nan_id_notification) initial_bridge) = Escaped ?e"
  proof -
    have e: "ensure_session ?env (JStr (lit ''notifications/initialized'')) initial_bridge
               = (None, with_session)"
      by (rule example_handshake) simp
    have u: "upstream ?env (sent with_session) (forward_call nan_id_notification with_session)
               = Reply accepted"
      by (simp add: example_env_def with_session_def)
    have s1: "200 \<le> status_code accepted" and s2: "status_code accepted \<le> 299"
      and s3: "status_code accepted = 202
             \<or> read_stream ?env [] (body_chunks accepted) (body_error accepted) = Exhausted"
      by (simp_all add: accepted_def)
    from unrenderable_id_escapes [OF m i e u s1 s2 s3 n] show ?thesis
      by (simp add: example_env_def)
  qed
  have b: "fst (handle_jsonrpc ?env2 (Inr nan_id_notification) initial_bridge) = Escaped ?e"
  proof -
    have e: "ensure_session ?env2 (JStr (lit ''notifications/initialized'')) initial_bridge
               = (None, with_session)"
      by (rule example_handshake) simp
    have u: "upstream ?env2 (sent with_session) call
               = NoReply (lit ''Out of range float values are not JSON compliant'')" for call
      by (simp add: example_env_def with_session_def)
    have "fst (forward ?env2 nan_id_notification (JFloat NaN) with_session) = Inl ?e"
      by (simp add: forward_def Let_def u)
    then have "fst (handle_jsonrpc ?env2 (Inr nan_id_notification) initial_bridge)
                 = except_clause ?env2 (Some nan_id_notification) ?e"
      by (simp add: handle_jsonrpc_forward [OF m i e])
    with except_clause_escapes [OF i n, of ?env2 ?e] show ?thesis
      by (simp add: example_env_def)
  qed
  from a b show ?thesis
    by simp
qed

text \<open>
  Claim C5, amended. When the inbound id can be rendered as JSON and the upstream answers
  the forwarded call with status 202, the gateway returns status 200 with the envelope
  \<open>{"jsonrpc": "2.0", "id": <inbound id>, "result": {}}\<close>. The body of the upstream
  response plays no part: the statement holds whatever chunks the response \<open>r\<close> carries
  and however its body ends, so the stream is not read. The forwarded call exists when
  the inbound body is an object and the session step before it did not raise. (The id
  of a body that renders as a whole renders, \<open>dict_get_renderable\<close>: an httpx that encodes
  the forwarded body as strictly as \<open>JSONResponse\<close> renders gets an answer only to such
  calls.)
\<close>

theorem accepted_notification:
  assumes "dict_get body (lit ''method'') = Inr method"
      and "dict_get body (lit ''id'') = Inr request_id"
      and "ensure_session env method s = (None, s1)"
      and "upstream env (sent s1) (forward_call body s1) = Reply r"
      and "status_code r = 202"
      and "renderable request_id"
  shows "fst (handle_jsonrpc env (Inr body) s)
           = Responded 200
               (JObj [(lit ''jsonrpc'', JStr (lit ''2.0'')), (lit ''id'', request_id),
                      (lit ''result'', JObj [])])"
proof -
  from assms(5) have "200 \<le> status_code r" and "status_code r \<le> 299"
    by simp_all
  from forward_reply [OF assms(4) this] assms(5,6)
  have "fst (forward env body request_id s1) = Inr (200, result_envelope request_id)"
    by (simp add: json_response_renderable)
  then show ?thesis
    by (simp add: handle_jsonrpc_forward [OF assms(1-3)] result_envelope_def)
qed

text \<open>
  The \<open>notifications/initialized\<close> notification, on a fresh bridge, with an upstream that
  accepts it with 202 and a body that would break if it were read.
\<close>

theorem accepted_notification_witness:
  "fst (handle_jsonrpc (example_env session_reply (Reply accepted)) (Inr initialized_notification)
          initial_bridge)
     = Responded 200
         (JObj [(lit ''jsonrpc'', JStr (lit ''2.0'')), (lit ''id'', JNull), (lit ''result'', JObj [])])"
proof -
  let ?env = "example_env session_reply (Reply accepted)"
  have m: "dict_get initialized_notification (lit ''method'')
             = Inr (JStr (lit ''notifications/initialized''))"
    by (simp add: dict_get_def initialized_notification_def)
  have i: "dict_get initialized_notification (lit ''id'') = Inr JNull"
    by (simp add: dict_get_def initialized_notification_def)
  have e: "ensure_session ?env (JStr (lit ''notifications/initialized'')) initial_bridge
             = (None, with_session)"
    by (rule example_handshake) simp
  have u: "upstream ?env (sent with_session) (forward_call initialized_notification with_session)
             = Reply accepted"
    by (simp add: example_env_def with_session_def)
  have c: "status_code accepted = 202"
    by (simp add: accepted_def)
  have r: "renderable JNull"
    by simp
  show ?thesis
    by (rule accepted_notification [OF m i e u c r])
qed




text \<open>
  Claim C7. When no session is stored and the handshake fails (no reply, a body cut off
  by a transport error, or a status outside 200..299), \<open>get_or_create_session\<close> raises
  to its caller and the stored token stays unset; the next call, whatever the upstream
  does then, sends the \<open>initialize\<close> call again.
\<close>

theorem handshake_failure_atomic:
  assumes "session_id s = None"
      and "\<not> handshake_ok (upstream env (sent s) init_call)"
  shows "\<exists>e s'. get_or_create_session env s = (Inl e, s') \<and> session_id s' = None
           \<and> (\<forall>env'. sent (snd (get_or_create_session env' s')) = sent s' @ [init_call])"
proof -
  obtain res s' where g: "get_or_create_session env s = (res, s')"
    by (cases "get_or_create_session env s")
  with assms(1) have
    h: "handshake_reply env (upstream env (sent s) init_call)
          ((get_http_client s)\<lparr>sent := sent s @ [init_call]\<rparr>) = (res, s')"
    by (simp add: get_or_create_session_miss)
  from handshake_reply_cases [OF h] assms
  obtain e where e: "res = Inl e" and s': "session_id s' = None"
    by auto
  have "sent (snd (get_or_create_session env' s')) = sent s' @ [init_call]" for env'
  proof -
    obtain res2 s2 where g2: "get_or_create_session env' s' = (res2, s2)"
      by (cases "get_or_create_session env' s'")
    from get_or_create_session_cases [OF g2] s' g2 show ?thesis
      by auto
  qed
  with g e s' show ?thesis
    by blast
qed

theorem handshake_failure_atomic_witness:
  "\<exists>e s'. get_or_create_session (example_env unavailable unavailable) initial_bridge = (Inl e, s')
      \<and> session_id s' = None
      \<and> (\<forall>env'. sent (snd (get_or_create_session env' s')) = sent s' @ [init_call])"
proof -
  have n: "session_id initial_bridge = None"
    by (simp add: initial_bridge_def)
  have f: "\<not> handshake_ok (upstream (example_env unavailable unavailable)
                               (sent initial_bridge) init_call)"
    by (simp add: handshake_ok_def example_env_def unavailable_def initial_bridge_def)
  show ?thesis
    by (rule handshake_failure_atomic [OF n f])
qed

text \<open>
  Claim C8, as stated, fails: the bridge makes one more call to the upstream, the
  \<open>client.get("/")\<close> of the \<open>/health\<close> route, which passes no headers. With a token
  stored, the probe is sent without the \<open>mcp-session-id\<close> header.
\<close>

theorem health_probe_carries_no_token:
  "session_id with_session = Some (lit ''abc123'')
   \<and> health_check (example_env session_reply session_reply) with_session
       = (Responded 200
            (JObj [(lit ''status'', JStr (lit ''healthy'')),
                   (lit ''fastmcp_server'', JStr (lit ''https://upstream.example'')),
                   (lit ''bridge'', JStr (lit ''running''))]),
          \<lparr>http_client = True, session_id = Some (lit ''abc123''),
           sent = [init_call, \<lparr>verb = ''GET'', path = ''/'', payload = JNull, headers = []\<rparr>]\<rparr>)"
  by (simp add: health_check_def health_call_def with_session_def example_env_def
        session_reply_def raise_for_status_def json_response_def get_http_client_def Let_def)

text \<open>
  Claim C8, amended to the calls that carry a request of the gateway. Every call that
  one run of \<open>handle_jsonrpc\<close> sends to the upstream is either the \<open>initialize\<close> call of
  the handshake, sent while no token is stored, or the forwarded call, whose
  \<open>mcp-session-id\<close> header is the stored token (and is absent when none is stored). When
  the inbound method is not \<open>initialize\<close>, the forwarded call carries a token: the one
  stored before the run, or the one the handshake of this run stored. The stored token
  is never the empty string (\<open>get_or_create_session\<close> stores the header value or
  \<open>default-session\<close>), which is the hypothesis on the state before the run. The only
  other call to the upstream, the one of \<open>health_check\<close>, is a \<open>GET /\<close> without headers.
\<close>

theorem session_header_attached:
  assumes "handle_jsonrpc env (Inr body) s = (out, s')"
      and "session_id s \<noteq> Some []"
      and "c \<in> set (drop (length (sent s)) (sent s'))"
  shows "((c = init_call \<and> session_id s = None
             \<and> dict_get body (lit ''method'') \<noteq> Inr (JStr (lit ''initialize'')))
          \<or> (payload c = body \<and> map_of (headers c) ''mcp-session-id'' = session_id s'
               \<and> (dict_get body (lit ''method'') \<noteq> Inr (JStr (lit ''initialize''))
                    \<longrightarrow> (\<exists>token. session_id s' = Some token
                           \<and> (session_id s = None \<or> session_id s = Some token)))))
       \<and> sent (snd (health_check env s))
           = sent s @ [\<lparr>verb = ''GET'', path = ''/'', payload = JNull, headers = []\<rparr>]"
proof (rule conjI)
  show "sent (snd (health_check env s))
          = sent s @ [\<lparr>verb = ''GET'', path = ''/'', payload = JNull, headers = []\<rparr>]"
    by (simp add: health_check_def health_call_def Let_def
             split: upstream_reply.splits option.splits sum.splits prod.splits)
next
  from handle_jsonrpc_state [OF assms(1)]
  obtain res where tb: "try_block env body s = (res, s')" ..
  show "(c = init_call \<and> session_id s = None
           \<and> dict_get body (lit ''method'') \<noteq> Inr (JStr (lit ''initialize'')))
        \<or> (payload c = body \<and> map_of (headers c) ''mcp-session-id'' = session_id s'
             \<and> (dict_get body (lit ''method'') \<noteq> Inr (JStr (lit ''initialize''))
                  \<longrightarrow> (\<exists>token. session_id s' = Some token
                         \<and> (session_id s = None \<or> session_id s = Some token))))"
  proof (cases "dict_get body (lit ''method'')")
    case (Inl e)
    from try_block_not_dict [OF this] tb assms(3) show ?thesis
      by simp
  next
    case (Inr m)
    from try_block_state [OF tb Inr]
    obtain r s1 where es: "ensure_session env m s = (r, s1)"
      and alt: "(\<exists>e. r = Some e \<and> s' = s1)
                \<or> (r = None \<and> session_id s' = session_id s1
                    \<and> sent s' = sent s1 @ [forward_call body s1])"
      by blast
    have hdr: "map_of (headers (forward_call body s1)) ''mcp-session-id'' = session_id s1"
      if "session_id s1 \<noteq> Some []"
      using that by (simp add: forward_call_def forward_headers_session)
    have pl: "payload (forward_call body s1) = body"
      by (simp add: forward_call_def)
    from ensure_session_cases [OF es] assms(2,3) alt Inr hdr pl show ?thesis
      by (elim disjE conjE exE) auto
  qed
qed

text \<open>The round trip: the forwarded \<open>tools/list\<close> call carries the token of the handshake.\<close>

theorem session_header_attached_witness:
  "forward_call tools_list_request with_session
     \<in> set (sent (snd (handle_jsonrpc (example_env session_reply (Reply tools_stream))
                          (Inr tools_list_request) initial_bridge)))
   \<and> map_of (headers (forward_call tools_list_request with_session)) ''mcp-session-id''
       = Some (lit ''abc123'')"
proof -
  let ?c = "forward_call tools_list_request with_session"
  let ?s' = "with_session\<lparr>sent := [init_call, ?c]\<rparr>"
  have n: "session_id initial_bridge \<noteq> Some []"
    by (simp add: initial_bridge_def)
  have c: "?c \<in> set (drop (length (sent initial_bridge)) (sent ?s'))"
    by (simp add: initial_bridge_def)
  have d: "?c \<noteq> init_call"
    by (simp add: forward_call_def init_call_def tools_list_request_def init_request_def)
  have s: "session_id ?s' = Some (lit ''abc123'')"
    by (simp add: with_session_def)
  from session_header_attached [OF tools_list_run n c, THEN conjunct1] d s
  have "map_of (headers ?c) ''mcp-session-id'' = Some (lit ''abc123'')"
    by simp
  then show ?thesis
    by (simp add: tools_list_run)
qed




text \<open>
  Claim C10, as stated, fails in two ways, as claim C6 does. When a complete line before
  the unterminated one makes \<open>json.loads\<close> raise something else than \<open>JSONDecodeError\<close>
  (an integer of 5000 digits), the answer is the \<open>Internal error: ...\<close> envelope, not the
  decode-exhaustion envelope. And with an inbound id that \<open>JSONResponse\<close> cannot render
  (\<open>NaN\<close>), the decode-exhaustion envelope raises when it is built, the \<open>except\<close> clause
  raises again, and the exception leaves the handler (as it does when httpx refuses to
  encode the forwarded body with that id).
\<close>

theorem unterminated_line_other_answers:
  "fst (handle_jsonrpc (example_env session_reply (Reply digits_then_unterminated))
          (Inr tools_list_request) initial_bridge)
     = Responded 500
         (JObj [(lit ''jsonrpc'', JStr (lit ''2.0'')), (lit ''id'', JInt 7),
                (lit ''error'',
                   JObj [(lit ''code'', JInt (- 32603)),
                         (lit ''message'', JStr (lit ''Internal error: '' @ digits_limit_text))])])
   \<and> fst (handle_jsonrpc (example_env session_reply (Reply unterminated_stream))
            (Inr nan_id_request) initial_bridge)
     = Escaped (OtherException (lit ''Out of range float values are not JSON compliant''))"
proof -
  let ?env = "example_env session_reply (Reply unterminated_stream)"
  have a: "fst (handle_jsonrpc (example_env session_reply (Reply digits_then_unterminated))
                  (Inr tools_list_request) initial_bridge)
             = Responded 500 (error_envelope (JInt 7) (lit ''Internal error: '' @ digits_limit_text))"
    by (rule digits_line_run) (simp_all add: digits_then_unterminated_def)
  have b: "fst (handle_jsonrpc ?env (Inr nan_id_request) initial_bridge)
             = Escaped (OtherException (lit ''Out of range float values are not JSON compliant''))"
  proof -
    have m: "dict_get nan_id_request (lit ''method'') = Inr (JStr (lit ''tools/list''))"
      by (simp add: dict_get_def nan_id_request_def)
    have i: "dict_get nan_id_request (lit ''id'') = Inr (JFloat NaN)"
      by (simp add: dict_get_def nan_id_request_def)
    have e: "ensure_session ?env (JStr (lit ''tools/list'')) initial_bridge = (None, with_session)"
      by (rule example_handshake) simp
    have u: "upstream ?env (sent with_session) (forward_call nan_id_request with_session)
               = Reply unterminated_stream"
      by (simp add: example_env_def with_session_def)
    have s1: "200 \<le> status_code unterminated_stream"
      and s2: "status_code unterminated_stream \<le> 299"
      and be: "body_error unterminated_stream = None"
      by (simp_all add: unterminated_stream_def)
    have "read_stream ?env [] (body_chunks unterminated_stream) None = Exhausted"
      by (rule read_stream_none) (simp add: unterminated_payloads)
    then have x: "status_code unterminated_stream = 202
                \<or> read_stream ?env [] (body_chunks unterminated_stream)
                     (body_error unterminated_stream) = Exhausted"
      by (simp add: be)
    have n: "\<not> renderable (JFloat NaN)"
      by simp
    from unrenderable_id_escapes [OF m i e u s1 s2 x n] show ?thesis
      by (simp add: example_env_def)
  qed
  from a b show ?thesis
    by (simp add: error_envelope_def)
qed

text \<open>
  Claim C10, amended. The loop only takes lines that end with a newline off the buffer.
  When the inbound id can be rendered as JSON, \<open>json.loads\<close> on the payloads of the
  newline-terminated data lines either raises \<open>JSONDecodeError\<close> or gives a value that is
  not an object with the \<open>jsonrpc\<close> key, and the text after the last newline is a data
  line that would yield \<open>v\<close>, that text stays in the buffer (\<open>process_buffer\<close> hands it
  back unparsed) and the gateway answers with status 500 and the decode-exhaustion
  envelope (code -32603, the inbound id, the message
  \<open>No valid JSON-RPC response found in SSE stream\<close>), not with \<open>v\<close>.
\<close>

theorem unterminated_last_line_not_parsed:
  assumes "dict_get body (lit ''method'') = Inr method"
      and "dict_get body (lit ''id'') = Inr request_id"
      and "ensure_session env method s = (None, s1)"
      and "upstream env (sent s1) (forward_call body s1) = Reply r"
      and "200 \<le> status_code r" and "status_code r \<le> 299" and "status_code r \<noteq> 202"
      and "body_error r = None"
      and "\<forall>q\<in>set (data_payloads (stream_text (body_chunks r))). passed_over env q"
      and "process_line env (residual (stream_text (body_chunks r))) = Found v"
      and "renderable request_id"
  shows "process_buffer env (stream_text (body_chunks r))
           = More (residual (stream_text (body_chunks r)))
       \<and> fst (handle_jsonrpc env (Inr body) s)
           = Responded 500
               (JObj [(lit ''jsonrpc'', JStr (lit ''2.0'')), (lit ''id'', request_id),
                      (lit ''error'',
                         JObj [(lit ''code'', JInt (- 32603)),
                               (lit ''message'',
                                  JStr (lit ''No valid JSON-RPC response found in SSE stream''))])])
       \<and> fst (handle_jsonrpc env (Inr body) s) \<noteq> Responded 200 v"
proof -
  from assms(9)
  have pb: "process_buffer env (stream_text (body_chunks r))
              = More (residual (stream_text (body_chunks r)))"
    by (rule process_buffer_none)
  from assms(9) have "read_stream env [] (body_chunks r) None = Exhausted"
    by (rule read_stream_none)
  with assms(7,8,11)
  have "fst (forward env body request_id s1) = Inr (500, error_envelope request_id no_response_text)"
    by (simp add: forward_reply [OF assms(4-6)] json_response_renderable)
  then have "fst (handle_jsonrpc env (Inr body) s)
               = Responded 500 (error_envelope request_id no_response_text)"
    by (simp add: handle_jsonrpc_forward [OF assms(1-3)])
  with pb show ?thesis
    by (simp add: error_envelope_def no_response_text_def)
qed

text \<open>The response line of the round trip, sent without a newline before the close.\<close>

theorem unterminated_last_line_not_parsed_witness:
  "fst (handle_jsonrpc (example_env session_reply (Reply unterminated_stream))
          (Inr tools_list_request) initial_bridge)
     = Responded 500
         (JObj [(lit ''jsonrpc'', JStr (lit ''2.0'')), (lit ''id'', JInt 7),
                (lit ''error'',
                   JObj [(lit ''code'', JInt (- 32603)),
                         (lit ''message'',
                            JStr (lit ''No valid JSON-RPC response found in SSE stream''))])])
   \<and> fst (handle_jsonrpc (example_env session_reply (Reply unterminated_stream))
          (Inr tools_list_request) initial_bridge)
     \<noteq> Responded 200 tools_list_response"
proof -
  let ?env = "example_env session_reply (Reply unterminated_stream)"
  have m: "dict_get tools_list_request (lit ''method'') = Inr (JStr (lit ''tools/list''))"
    by (simp add: dict_get_def tools_list_request_def)
  have i: "dict_get tools_list_request (lit ''id'') = Inr (JInt 7)"
    by (simp add: dict_get_def tools_list_request_def)
  have e: "ensure_session ?env (JStr (lit ''tools/list'')) initial_bridge = (None, with_session)"
    by (rule example_handshake) simp
  have u: "upstream ?env (sent with_session) (forward_call tools_list_request with_session)
             = Reply unterminated_stream"
    by (simp add: example_env_def with_session_def)
  have s1: "200 \<le> status_code unterminated_stream"
    and s2: "status_code unterminated_stream \<le> 299"
    and s3: "status_code unterminated_stream \<noteq> 202"
    and b: "body_error unterminated_stream = None"
    by (simp_all add: unterminated_stream_def)
  have p: "\<forall>q\<in>set (data_payloads (stream_text (body_chunks unterminated_stream))).
             passed_over ?env q"
    by (simp add: unterminated_payloads)
  have l: "process_line ?env (residual (stream_text (body_chunks unterminated_stream)))
             = Found tools_list_response"
    by (simp only: unterminated_residual unterminated_line)
  have r: "renderable (JInt 7)"
    by simp
  from unterminated_last_line_not_parsed [OF m i e u s1 s2 s3 b p l r]
  show ?thesis
    by blast
qed

end
